theory Spec2Isabelle
  imports Complex_Main
begin

section \<open>Array numbers\<close>

text \<open>
  The analysis works on numpy arrays of IEEE floating-point numbers. Rounding is left out:
  a finite array entry is an exact real. The special values are kept, because numpy
  produces them instead of raising: a division by zero gives an infinity or NaN, the mean
  of an empty array is NaN, and a sum, product or quotient that reaches the overflow
  threshold of double precision, \<open>2\<^sup>1\<^sup>0\<^sup>2\<^sup>4 - 2\<^sup>9\<^sup>7\<^sup>0\<close>, is an infinity. Signed zeros are
  not modelled, and the single-precision arrays of \<open>NoiseAnalysis\<close> are treated like
  double-precision ones.
\<close>

datatype npfloat = Num real | PosInf | NegInf | NaN

datatype error = ValueError | IndexError

definition float64_overflow :: real where
  "float64_overflow = 2 ^ 1024 - 2 ^ 970"

text \<open>The floating-point value of an exact result.\<close>

definition np_finite :: "real \<Rightarrow> npfloat" where
  "np_finite r =
     (if float64_overflow \<le> r then PosInf
      else if r \<le> - float64_overflow then NegInf
      else Num r)"

fun np_neg :: "npfloat \<Rightarrow> npfloat" where
  "np_neg (Num a) = Num (- a)"
| "np_neg PosInf = NegInf"
| "np_neg NegInf = PosInf"
| "np_neg NaN = NaN"

fun np_add :: "npfloat \<Rightarrow> npfloat \<Rightarrow> npfloat" where
  "np_add (Num a) (Num b) = np_finite (a + b)"
| "np_add NaN y = NaN"
| "np_add x NaN = NaN"
| "np_add PosInf NegInf = NaN"
| "np_add NegInf PosInf = NaN"
| "np_add PosInf y = PosInf"
| "np_add NegInf y = NegInf"
| "np_add x PosInf = PosInf"
| "np_add x NegInf = NegInf"

definition np_sub :: "npfloat \<Rightarrow> npfloat \<Rightarrow> npfloat" where
  "np_sub x y = np_add x (np_neg y)"

fun np_mul :: "npfloat \<Rightarrow> npfloat \<Rightarrow> npfloat" where
  "np_mul (Num a) (Num b) = np_finite (a * b)"
| "np_mul NaN y = NaN"
| "np_mul x NaN = NaN"
| "np_mul PosInf (Num b) = (if 0 < b then PosInf else if b < 0 then NegInf else NaN)"
| "np_mul NegInf (Num b) = (if 0 < b then NegInf else if b < 0 then PosInf else NaN)"
| "np_mul (Num a) PosInf = (if 0 < a then PosInf else if a < 0 then NegInf else NaN)"
| "np_mul (Num a) NegInf = (if 0 < a then NegInf else if a < 0 then PosInf else NaN)"
| "np_mul PosInf PosInf = PosInf"
| "np_mul PosInf NegInf = NegInf"
| "np_mul NegInf PosInf = NegInf"
| "np_mul NegInf NegInf = PosInf"

fun np_div :: "npfloat \<Rightarrow> npfloat \<Rightarrow> npfloat" where
  "np_div (Num a) (Num b) =
     (if b \<noteq> 0 then np_finite (a / b)
      else if 0 < a then PosInf else if a < 0 then NegInf else NaN)"
| "np_div NaN y = NaN"
| "np_div x NaN = NaN"
| "np_div (Num a) PosInf = Num 0"
| "np_div (Num a) NegInf = Num 0"
| "np_div PosInf (Num b) = (if 0 \<le> b then PosInf else NegInf)"
| "np_div NegInf (Num b) = (if 0 \<le> b then NegInf else PosInf)"
| "np_div PosInf y = NaN"
| "np_div NegInf y = NaN"

fun np_abs :: "npfloat \<Rightarrow> npfloat" where
  "np_abs (Num a) = Num \<bar>a\<bar>"
| "np_abs PosInf = PosInf"
| "np_abs NegInf = PosInf"
| "np_abs NaN = NaN"

fun np_sqrt :: "npfloat \<Rightarrow> npfloat" where
  "np_sqrt (Num a) = (if a < 0 then NaN else Num (sqrt a))"
| "np_sqrt PosInf = PosInf"
| "np_sqrt NegInf = NaN"
| "np_sqrt NaN = NaN"

text \<open>Comparisons with NaN are false, as in IEEE arithmetic.\<close>

fun np_lt :: "npfloat \<Rightarrow> npfloat \<Rightarrow> bool" where
  "np_lt (Num a) (Num b) = (a < b)"
| "np_lt NaN y = False"
| "np_lt x NaN = False"
| "np_lt x NegInf = False"
| "np_lt PosInf y = False"
| "np_lt NegInf y = True"
| "np_lt x PosInf = True"

definition np_gt :: "npfloat \<Rightarrow> npfloat \<Rightarrow> bool" where
  "np_gt x y = np_lt y x"

fun is_finite :: "npfloat \<Rightarrow> bool" where
  "is_finite (Num a) = True"
| "is_finite PosInf = False"
| "is_finite NegInf = False"
| "is_finite NaN = False"

fun np_sum :: "npfloat list \<Rightarrow> npfloat" where
  "np_sum [] = Num 0"
| "np_sum (x # xs) = np_add x (np_sum xs)"

definition np_mean :: "npfloat list \<Rightarrow> npfloat" where
  "np_mean xs = np_div (np_sum xs) (Num (real (length xs)))"

text \<open>\<^verbatim>\<open>np.std\<close>: the population standard deviation (no degrees-of-freedom correction).\<close>

definition np_std :: "npfloat list \<Rightarrow> npfloat" where
  "np_std xs =
     (let arrmean = np_mean xs
      in np_sqrt (np_mean (map (\<lambda>x. np_mul (np_sub x arrmean) (np_sub x arrmean)) xs)))"

text \<open>
  An elementwise operation on two vectors broadcasts a vector of length one and raises
  ValueError on any other mismatch of the lengths.
\<close>

definition np_elementwise ::
  "(npfloat \<Rightarrow> npfloat \<Rightarrow> npfloat) \<Rightarrow> npfloat list \<Rightarrow> npfloat list \<Rightarrow> error + npfloat list" where
  "np_elementwise f a b =
     (if length a = length b then Inr (map2 f a b)
      else if length b = 1 then Inr (map (\<lambda>x. f x (hd b)) a)
      else if length a = 1 then Inr (map (\<lambda>y. f (hd a) y) b)
      else Inl ValueError)"

text \<open>Reductions along axis 0 of a matrix stored as a list of rows with \<open>ncols\<close> columns.\<close>

definition column :: "npfloat list list \<Rightarrow> nat \<Rightarrow> npfloat list" where
  "column m c = map (\<lambda>row. row ! c) m"

definition np_mean_axis0 :: "npfloat list list \<Rightarrow> nat \<Rightarrow> npfloat list" where
  "np_mean_axis0 m ncols = map (\<lambda>c. np_mean (column m c)) [0..<ncols]"

definition np_std_axis0 :: "npfloat list list \<Rightarrow> nat \<Rightarrow> npfloat list" where
  "np_std_axis0 m ncols = map (\<lambda>c. np_std (column m c)) [0..<ncols]"

text \<open>
  \<^verbatim>\<open>np.median\<close>: NaN for an empty array and for an array holding a NaN; otherwise the
  middle entry of the sorted array, or the mean of the two middle entries.
\<close>

fun np_insort :: "npfloat \<Rightarrow> npfloat list \<Rightarrow> npfloat list" where
  "np_insort x [] = [x]"
| "np_insort x (y # ys) = (if np_lt y x then y # np_insort x ys else x # y # ys)"

fun np_sort :: "npfloat list \<Rightarrow> npfloat list" where
  "np_sort [] = []"
| "np_sort (x # xs) = np_insort x (np_sort xs)"

definition np_median :: "npfloat list \<Rightarrow> npfloat" where
  "np_median xs =
     (let n = length xs; s = np_sort xs
      in if n = 0 \<or> NaN \<in> set xs then NaN
         else if odd n then s ! (n div 2)
         else np_mean [s ! (n div 2 - 1), s ! (n div 2)])"

text \<open>
  \<^verbatim>\<open>np.delete(arr, obj)\<close> with an array of positions: the entries at the listed positions
  are dropped, a position listed twice is dropped once, a position outside the array raises
  IndexError.
\<close>

definition delete_positions :: "'a list \<Rightarrow> nat list \<Rightarrow> 'a list" where
  "delete_positions arr obj = map (\<lambda>k. arr ! k) (filter (\<lambda>k. k \<notin> set obj) [0..<length arr])"

definition np_delete :: "'a list \<Rightarrow> nat list \<Rightarrow> error + 'a list" where
  "np_delete arr obj =
     (if list_all (\<lambda>k. k < length arr) obj then Inr (delete_positions arr obj)
      else Inl IndexError)"

section \<open>NoiseAnalysis (analysis\_classes/noise\_analysis.py)\<close>

text \<open>
  The raw data of a pedestal file: the header pedestal (only its length is used), the
  signal matrix (one row per event, \<open>numchan\<close> entries per row) and the event times.
  The configuration holds \<open>Noise_cut\<close> and \<open>Manual_mask\<close> (channel numbers); the
  \<open>optimize\<close> switch selects a numba routine that is not part of the sources, so the model
  is the branch \<^verbatim>\<open>not self.optimize\<close>.
\<close>

record pedestal_data =
  header_pedestal :: "npfloat list"
  events_signal :: "npfloat list list"
  events_time :: "real list"

record noise_configs =
  cfg_Noise_cut :: real
  cfg_Manual_mask :: "nat list"

record NoiseAnalysis =
  na_numchan :: nat
  na_numevents :: nat
  na_pedestal :: "npfloat list"
  na_noise :: "npfloat list"
  na_goodevents :: "nat list"
  na_noise_cut :: real
  na_mask :: "nat list"
  na_signal :: "npfloat list list"
  na_score_raw :: "npfloat list list"
  na_CMnoise :: "npfloat list"
  na_CMsig :: "npfloat list"
  na_median_noise :: npfloat
  na_noisy_strips :: "nat list"
  na_good_strips :: "nat list"
  na_score :: "npfloat list list"
  na_total_noise :: "npfloat list"

text \<open>
  \<^verbatim>\<open>detect_noisy_strips\<close>: the strips above median + cut, followed by the manual mask
  (\<^verbatim>\<open>np.append\<close> keeps duplicates), and the remaining strips. The mask holds channel
  numbers, read as array positions. \<^verbatim>\<open>np.append\<close> of the integer positions and an empty
  mask is an array of floats, which \<^verbatim>\<open>np.delete\<close> refuses as positions: with the empty
  mask, the default of the configuration, the call raises IndexError, as it does for a
  position outside the array. (Older versions of numpy warn in both cases and go on; the
  model follows the current one.)
\<close>

definition detect_noisy_strips ::
  "nat list \<Rightarrow> npfloat list \<Rightarrow> real \<Rightarrow> error + (npfloat \<times> nat list \<times> nat list)" where
  "detect_noisy_strips manual_mask Noise Noise_cut =
     (let good_strips = [0..<length Noise];
          median_noise = np_median Noise;
          high_noise_strips =
            filter (\<lambda>i. np_gt (Noise ! i) (np_add median_noise (Num Noise_cut))) [0..<length Noise];
          high_noise_strips = high_noise_strips @ manual_mask
      in if manual_mask = [] then Inl IndexError
         else case np_delete good_strips high_noise_strips of
           Inl e \<Rightarrow> Inl e
         | Inr good_strips \<Rightarrow> Inr (median_noise, high_noise_strips, good_strips))"

text \<open>
  \<^verbatim>\<open>noise_calc\<close>: the loop runs over the first \<open>ngood\<close> events, \<open>ngood\<close> being the number
  of events with a time \<open>\<ge> 0\<close>; the rows of \<open>score\<close> it does not reach stay zero.
\<close>

fun noise_calc_loop ::
  "npfloat list list \<Rightarrow> npfloat list \<Rightarrow> nat \<Rightarrow> nat list \<Rightarrow>
   npfloat list list \<times> npfloat list \<times> npfloat list \<Rightarrow>
   error + (npfloat list list \<times> npfloat list \<times> npfloat list)" where
  "noise_calc_loop events pedestal numchannels [] st = Inr st"
| "noise_calc_loop events pedestal numchannels (event # rest) (score, CMnoise, CMsig) =
     (if length events \<le> event \<or> length score \<le> event then Inl IndexError
      else case np_elementwise np_sub (events ! event) pedestal of
          Inl e \<Rightarrow> Inl e
        | Inr cm \<Rightarrow>
            (let CMNsig = np_std cm;
                 CMN = np_mean cm;
                 cn = map (\<lambda>x. np_sub x CMN) cm
             in if length cn = numchannels then
                  noise_calc_loop events pedestal numchannels rest
                    (score[event := cn], CMnoise[event := CMN], CMsig[event := CMNsig])
                else if length cn = 1 then
                  noise_calc_loop events pedestal numchannels rest
                    (score[event := replicate numchannels (hd cn)],
                     CMnoise[event := CMN], CMsig[event := CMNsig])
                else Inl ValueError))"

definition noise_calc ::
  "nat \<Rightarrow> npfloat list list \<Rightarrow> npfloat list \<Rightarrow> nat \<Rightarrow> nat \<Rightarrow>
   error + (npfloat list list \<times> npfloat list \<times> npfloat list)" where
  "noise_calc ngood events pedestal numevents numchannels =
     noise_calc_loop events pedestal numchannels [0..<ngood]
       (replicate numevents (replicate numchannels (Num 0)),
        replicate numevents (Num 0), replicate numevents (Num 0))"

text \<open>\<^verbatim>\<open>signal[:, good_strips]\<close> and \<^verbatim>\<open>pedestal[good_strips]\<close>.\<close>

definition take_indices :: "npfloat list \<Rightarrow> nat list \<Rightarrow> npfloat list" where
  "take_indices v idx = map (\<lambda>i. v ! i) idx"

text \<open>
  The constructor. The pedestal is the mean over axis 0 of the whole signal matrix. The
  noise is the standard deviation of the residuals of the first \<^verbatim>\<open>noise_calc\<close>; the second
  \<^verbatim>\<open>noise_calc\<close>, restricted to the good strips, replaces \<open>score_raw\<close>, \<open>CMnoise\<close> and
  \<open>CMsig\<close> only. \<open>score\<close> stays the zero matrix with one row per good event, and the
  last statement, \<^verbatim>\<open>np.concatenate(self.score, axis=0)\<close>, raises ValueError when it has
  no row.
\<close>

definition NoiseAnalysis_init :: "pedestal_data \<Rightarrow> noise_configs \<Rightarrow> error + NoiseAnalysis" where
  "NoiseAnalysis_init data configs =
     (let numchan = length (header_pedestal data);
          numevents = length (events_signal data);
          goodevents = filter (\<lambda>k. 0 \<le> events_time data ! k) [0..<length (events_time data)];
          noise_cut = cfg_Noise_cut configs;
          manual_mask = cfg_Manual_mask configs;
          pedestal = np_mean_axis0 (events_signal data) numchan;
          signal = events_signal data
      in case noise_calc (length goodevents) signal pedestal numevents numchan of
           Inl e \<Rightarrow> Inl e
         | Inr (score_raw, CMnoise, CMsig) \<Rightarrow>
            (let noise = np_std_axis0 score_raw numchan
             in case detect_noisy_strips manual_mask noise noise_cut of
                  Inl e \<Rightarrow> Inl e
                | Inr (median_noise, noisy_strips, good_strips) \<Rightarrow>
                   (case noise_calc (length goodevents)
                           (map (\<lambda>row. take_indices row good_strips) signal)
                           (take_indices pedestal good_strips) numevents (length good_strips) of
                      Inl e \<Rightarrow> Inl e
                    | Inr (score_raw2, CMnoise2, CMsig2) \<Rightarrow>
                        (let score = replicate (length goodevents) (replicate numchan (Num 0))
                         in if score = [] then Inl ValueError
                            else
                              Inr \<lparr> na_numchan = numchan, na_numevents = numevents,
                                    na_pedestal = pedestal, na_noise = noise,
                                    na_goodevents = goodevents, na_noise_cut = noise_cut,
                                    na_mask = manual_mask, na_signal = signal,
                                    na_score_raw = score_raw2, na_CMnoise = CMnoise2,
                                    na_CMsig = CMsig2, na_median_noise = median_noise,
                                    na_noisy_strips = noisy_strips,
                                    na_good_strips = good_strips, na_score = score,
                                    na_total_noise = concat score \<rparr>))))"

section \<open>noise\_analysis (analysis\_functions.py)\<close>



section \<open>event\_analysis (analysis\_functions.py)\<close>

text \<open>
  The attributes of the analysis object that the event loop reads or writes. \<open>material\<close>
  is true for the sensor type n-in-p. The jitted branch of \<^verbatim>\<open>do_analysis\<close> calls routines
  that are not part of the sources; the model is the branch \<^verbatim>\<open>not self.usejit\<close>.
\<close>

record event_analysis =
  ea_numchan :: nat
  ea_pedestal :: "npfloat list"
  ea_noise :: "npfloat list"
  ea_SN_cut :: real
  ea_tmin :: real
  ea_CMN :: "npfloat list"
  ea_CMsig :: "npfloat list"
  ea_automasked_hit :: nat
  ea_events :: nat
  ea_material :: bool
  ea_masking :: bool
  ea_max_clustersize :: nat
  ea_SN_ratio :: real
  ea_SN_cluster :: real

subsection \<open>process\_event\<close>

text \<open>
  \<^verbatim>\<open>prosignal.any()\<close> is true when some entry of the trimmed signal is not zero (NaN and
  the infinities count as not zero).
\<close>

definition process_event ::
  "npfloat list \<Rightarrow> npfloat list \<Rightarrow> npfloat \<Rightarrow> npfloat \<Rightarrow> npfloat list \<Rightarrow> nat \<Rightarrow>
   error + (npfloat list \<times> npfloat list \<times> npfloat \<times> npfloat)" where
  "process_event event pedestal meanCMN meanCMsig noise numchan =
     (case np_elementwise np_sub event pedestal of
        Inl e \<Rightarrow> Inl e
      | Inr signal \<Rightarrow>
         (let prosignal =
                filter (\<lambda>x. np_lt x (np_add (np_mul (Num 5) meanCMsig) meanCMN)) signal
          in if list_ex (\<lambda>x. x \<noteq> Num 0) prosignal then
               (let cmpro = np_mean prosignal;
                    sigpro = np_std prosignal;
                    corrsignal = map (\<lambda>x. np_sub x cmpro) signal
                in case np_elementwise np_div corrsignal noise of
                     Inl e \<Rightarrow> Inl e
                   | Inr SN \<Rightarrow> Inr (corrsignal, SN, cmpro, sigpro))
             else Inr (replicate numchan (Num 0), replicate numchan (Num 0), Num 0, Num 0)))"

subsection \<open>clustering\<close>

text \<open>
  The local variables of \<^verbatim>\<open>clustering\<close>. \<open>cluster\<close>, \<open>csize\<close> (the source's \<open>size\<close>) and
  the two stop flags are set anew for every seed channel. The function reads
  \<open>used_channels\<close>, \<open>SN\<close> and \<open>event\<close> at channel numbers below \<open>self.numchan\<close>; the
  arrays it is given by \<^verbatim>\<open>do_analysis\<close> have that length, and the theorems about it assume so
  (a shorter array makes Python raise IndexError).
\<close>

record clustering_frame =
  used_channels :: "bool list"
  numclus :: nat
  clusters_list :: "nat list list"
  clustersize :: "nat list"
  cluster :: "nat list"
  csize :: nat
  right_stop :: bool
  left_stop :: bool

definition right_step ::
  "event_analysis \<Rightarrow> npfloat list \<Rightarrow> nat list \<Rightarrow> nat \<Rightarrow> nat \<Rightarrow> clustering_frame \<Rightarrow> clustering_frame" where
  "right_step self SN valid_ind ch i f =
     (if np_gt (np_abs (SN ! (ch + i))) (Num (ea_SN_cut self * ea_SN_ratio self))
         \<and> \<not> used_channels f ! (ch + i) \<and> ch + i \<in> set valid_ind \<and> \<not> right_stop f
      then f\<lparr>cluster := cluster f @ [ch + i],
             used_channels := (used_channels f)[ch + i := True],
             csize := csize f + 1\<rparr>
      else if np_lt (np_abs (SN ! (ch + i))) (Num (ea_SN_cut self * ea_SN_ratio self))
      then f\<lparr>right_stop := True\<rparr>
      else f)"

definition left_step ::
  "event_analysis \<Rightarrow> npfloat list \<Rightarrow> nat list \<Rightarrow> nat \<Rightarrow> nat \<Rightarrow> clustering_frame \<Rightarrow> clustering_frame" where
  "left_step self SN valid_ind ch i f =
     (if np_gt (np_abs (SN ! (ch - i))) (Num (ea_SN_cut self * ea_SN_ratio self))
         \<and> \<not> used_channels f ! (ch - i) \<and> ch - i \<in> set valid_ind \<and> \<not> left_stop f
      then f\<lparr>cluster := cluster f @ [ch - i],
             used_channels := (used_channels f)[ch - i := True],
             csize := csize f + 1\<rparr>
      else if np_lt (np_abs (SN ! (ch - i))) (Num (ea_SN_cut self * ea_SN_ratio self))
      then f\<lparr>left_stop := True\<rparr>
      else f)"

text \<open>One round of the neighbour loop; \<^verbatim>\<open>0 < ch-i\<close> on integers is \<open>i < ch\<close>.\<close>

definition neighbour_step ::
  "event_analysis \<Rightarrow> npfloat list \<Rightarrow> nat list \<Rightarrow> nat \<Rightarrow> nat \<Rightarrow> clustering_frame \<Rightarrow> clustering_frame" where
  "neighbour_step self SN valid_ind ch i f =
     (if i < ch \<and> ch + i < ea_numchan self
      then left_step self SN valid_ind ch i (right_step self SN valid_ind ch i f)
      else f)"

text \<open>The candidate cluster grown from an unused seed channel.\<close>

definition grow ::
  "event_analysis \<Rightarrow> npfloat list \<Rightarrow> nat list \<Rightarrow> nat \<Rightarrow> clustering_frame \<Rightarrow> clustering_frame" where
  "grow self SN valid_ind ch f =
     (let offset = ea_max_clustersize self div 2
      in fold (neighbour_step self SN valid_ind ch) [1..<offset + 1]
           (f\<lparr>used_channels := (used_channels f)[ch := True], cluster := [ch], csize := 1,
              right_stop := False, left_stop := False\<rparr>))"

text \<open>The acceptance test \<^verbatim>\<open>np.sqrt(np.abs(np.sum(np.take(event, cluster)))) > self.SN_cluster\<close>.\<close>

definition accepted :: "event_analysis \<Rightarrow> npfloat list \<Rightarrow> nat list \<Rightarrow> bool" where
  "accepted self event c =
     np_gt (np_sqrt (np_abs (np_sum (map (\<lambda>k. event ! k) c)))) (Num (ea_SN_cluster self))"

text \<open>The body of the loop over the hit channels.\<close>

definition seed_step ::
  "event_analysis \<Rightarrow> npfloat list \<Rightarrow> npfloat list \<Rightarrow> nat list \<Rightarrow> nat \<Rightarrow> clustering_frame \<Rightarrow> clustering_frame" where
  "seed_step self event SN valid_ind ch f =
     (if \<not> used_channels f ! ch then
        (let g = grow self SN valid_ind ch f
         in if accepted self event (cluster g)
            then g\<lparr>numclus := numclus g + 1,
                   clusters_list := clusters_list g @ [cluster g],
                   clustersize := clustersize g @ [csize g]\<rparr>
            else g)
      else f)"

text \<open>
  Automasking: the positions in \<open>channels\<close> of the hits with the wrong sign are deleted
  and counted, and \<open>valid_ind\<close> keeps the channels with the right sign.
\<close>

definition automask ::
  "event_analysis \<Rightarrow> npfloat list \<Rightarrow> nat list \<Rightarrow> event_analysis \<times> nat list \<times> nat list" where
  "automask self event channels =
     (if ea_masking self then
        (if ea_material self then
           (let masked_ind =
                  filter (\<lambda>k. np_gt (event ! (channels ! k)) (Num 0)) [0..<length channels];
                valid_ind = filter (\<lambda>k. np_lt (event ! k) (Num 0)) [0..<length event]
            in (self\<lparr>ea_automasked_hit := ea_automasked_hit self + length masked_ind\<rparr>,
                delete_positions channels masked_ind, valid_ind))
         else
           (let masked_ind =
                  filter (\<lambda>k. np_lt (event ! (channels ! k)) (Num 0)) [0..<length channels];
                valid_ind = filter (\<lambda>k. np_gt (event ! k) (Num 0)) [0..<length event]
            in (self\<lparr>ea_automasked_hit := ea_automasked_hit self + length masked_ind\<rparr>,
                delete_positions channels masked_ind, valid_ind)))
      else (self, channels, [0..<length event]))"

definition init_frame :: "event_analysis \<Rightarrow> clustering_frame" where
  "init_frame self =
     \<lparr>used_channels = replicate (ea_numchan self) False, numclus = 0, clusters_list = [],
      clustersize = [], cluster = [], csize = 0, right_stop = False, left_stop = False\<rparr>"

definition hit_channels :: "event_analysis \<Rightarrow> npfloat list \<Rightarrow> nat list" where
  "hit_channels self SN =
     filter (\<lambda>ch. np_gt (np_abs (SN ! ch)) (Num (ea_SN_cut self))) [0..<length SN]"

text \<open>
  \<^verbatim>\<open>clustering\<close> returns the hit channels, the accepted clusters, their number and their
  sizes; the model also returns the object, whose \<open>automasked_hit\<close> it updates.
\<close>

definition clustering ::
  "event_analysis \<Rightarrow> npfloat list \<Rightarrow> npfloat list \<Rightarrow>
   event_analysis \<times> nat list \<times> nat list list \<times> nat \<times> nat list" where
  "clustering self event SN =
     (case automask self event (hit_channels self SN) of
        (self', channels, valid_ind) \<Rightarrow>
          (let f = fold (seed_step self' event SN valid_ind) channels (init_frame self')
           in (self', channels, clusters_list f, numclus f, clustersize f)))"

text \<open>
  All candidate clusters of one call, accepted or not, in the order in which the loop over
  the hit channels forms them. The source keeps the accepted ones only; this list is used
  to speak about the rejected ones.
\<close>

fun candidates ::
  "event_analysis \<Rightarrow> npfloat list \<Rightarrow> npfloat list \<Rightarrow> nat list \<Rightarrow> nat list \<Rightarrow> clustering_frame \<Rightarrow> nat list list" where
  "candidates self event SN valid_ind [] f = []"
| "candidates self event SN valid_ind (ch # channels) f =
     (if \<not> used_channels f ! ch
      then cluster (grow self SN valid_ind ch f)
             # candidates self event SN valid_ind channels (seed_step self event SN valid_ind ch f)
      else candidates self event SN valid_ind channels f)"

subsection \<open>do\_analysis\<close>

text \<open>
  The hit map is one numpy array, created before the event loop and changed in place; every
  row of \<open>prodata\<close> holds a reference to it. The store maps the address of an array to its
  present contents.
\<close>

type_synonym addr = nat

type_synonym store = "addr \<Rightarrow> nat list"

record event_result =
  r_signal :: "npfloat list"
  r_SN :: "npfloat list"
  r_CMN :: npfloat
  r_CMsig :: npfloat
  r_hitmap :: addr
  r_channels_hit :: "nat list"
  r_clusters :: "nat list list"
  r_numclus :: nat
  r_clustersize :: "nat list"

fun count_hits :: "nat list \<Rightarrow> nat list \<Rightarrow> error + nat list" where
  "count_hits hitmap [] = Inr hitmap"
| "count_hits hitmap (channel # rest) =
     (if channel < length hitmap
      then count_hits (hitmap[channel := hitmap ! channel + 1]) rest
      else Inl IndexError)"

fun do_analysis_loop ::
  "npfloat list list \<Rightarrow> npfloat \<Rightarrow> npfloat \<Rightarrow> addr \<Rightarrow> nat list \<Rightarrow>
   event_analysis \<times> store \<times> event_result list \<Rightarrow>
   error + (event_analysis \<times> store \<times> event_result list)" where
  "do_analysis_loop events meanCMN meanCMsig hitmap [] st = Inr st"
| "do_analysis_loop events meanCMN meanCMsig hitmap (event # rest) (self, heap, prodata) =
     (if length events \<le> event then Inl IndexError
      else case process_event (events ! event) (ea_pedestal self) meanCMN meanCMsig
                  (ea_noise self) (ea_numchan self) of
          Inl e \<Rightarrow> Inl e
        | Inr (signal, SN, CMN, CMsig) \<Rightarrow>
           (case clustering self signal SN of
              (self', channels_hit, clusters, numclus', clustersize') \<Rightarrow>
                (case count_hits (heap hitmap) channels_hit of
                   Inl e \<Rightarrow> Inl e
                 | Inr counted \<Rightarrow>
                     do_analysis_loop events meanCMN meanCMsig hitmap rest
                       (self', heap(hitmap := counted),
                        prodata @ [\<lparr>r_signal = signal, r_SN = SN, r_CMN = CMN, r_CMsig = CMsig,
                                    r_hitmap = hitmap, r_channels_hit = channels_hit,
                                    r_clusters = clusters, r_numclus = numclus',
                                    r_clustersize = clustersize'\<rparr>]))))"

text \<open>
  \<open>gtime\<close> holds the positions of the events with a timing above \<open>self.tmin\<close>; the loop
  runs over \<^verbatim>\<open>range(gtime[0].shape[0])\<close> and reads \<^verbatim>\<open>events[event]\<close>. \<open>hitmap\<close> is the
  address at which the new hit map is allocated.
\<close>

definition do_analysis ::
  "event_analysis \<Rightarrow> store \<Rightarrow> addr \<Rightarrow> npfloat list list \<Rightarrow> real list \<Rightarrow>
   error + (event_analysis \<times> store \<times> event_result list)" where
  "do_analysis self heap hitmap events timing =
     (let gtime = filter (\<lambda>k. ea_tmin self < timing ! k) [0..<length timing];
          self1 = self\<lparr>ea_events := ea_events self + length gtime\<rparr>;
          meanCMN = np_mean (ea_CMN self1);
          meanCMsig = np_mean (ea_CMsig self1)
      in do_analysis_loop events meanCMN meanCMsig hitmap [0..<length gtime]
           (self1, heap(hitmap := replicate (ea_numchan self1) 0), []))"


subsection \<open>Invariant of the neighbour loop\<close>

text \<open>
  Appending a channel to the cluster under construction, as both branches of the neighbour
  loop do.
\<close>

definition add_channel :: "nat \<Rightarrow> clustering_frame \<Rightarrow> clustering_frame" where
  "add_channel c f =
     f\<lparr>cluster := cluster f @ [c], used_channels := (used_channels f)[c := True],
       csize := csize f + 1\<rparr>"

text \<open>
  While the cluster of seed \<open>ch\<close> grows, \<open>u0\<close> being the used channels before the seed was
  taken: the cluster starts with the seed, lists no channel twice, has \<open>csize\<close> members, all
  of them channels that were unused before and are the seed or valid, and the used channels
  are those of \<open>u0\<close> and the members.
\<close>

definition cluster_inv ::
  "nat \<Rightarrow> nat list \<Rightarrow> bool list \<Rightarrow> nat \<Rightarrow> clustering_frame \<Rightarrow> bool" where
  "cluster_inv n valid_ind u0 ch f \<longleftrightarrow>
     length (used_channels f) = n \<and> length u0 = n
     \<and> cluster f \<noteq> [] \<and> hd (cluster f) = ch
     \<and> distinct (cluster f) \<and> csize f = length (cluster f)
     \<and> (\<forall>c\<in>set (cluster f). c < n \<and> \<not> u0 ! c \<and> (c = ch \<or> c \<in> set valid_ind))
     \<and> (\<forall>c<n. used_channels f ! c = (u0 ! c \<or> c \<in> set (cluster f)))"


text \<open>
  What the loop over the hit channels has done when it goes from frame \<open>f\<close> to frame \<open>g\<close>
  and forms the candidates \<open>cands\<close>: the accepted candidates, their number and their sizes
  are appended to the results; no channel is in two candidates or twice in one; a candidate
  starts with its seed, a hit channel, and its other members are valid channels; its length
  is at most \<open>2 * (max_clustersize div 2) + 1\<close>; its members were unused in \<open>f\<close> and are
  used in \<open>g\<close>; and a channel used in \<open>f\<close> stays used.
\<close>

definition loop_spec ::
  "event_analysis \<Rightarrow> npfloat list \<Rightarrow> nat list \<Rightarrow> nat list \<Rightarrow> nat list list \<Rightarrow>
   clustering_frame \<Rightarrow> clustering_frame \<Rightarrow> bool" where
  "loop_spec self event valid_ind channels cands f g \<longleftrightarrow>
     clusters_list g = clusters_list f @ filter (accepted self event) cands
   \<and> numclus g = numclus f + length (filter (accepted self event) cands)
   \<and> clustersize g = clustersize f @ map length (filter (accepted self event) cands)
   \<and> length (used_channels g) = ea_numchan self
   \<and> distinct (concat cands)
   \<and> (\<forall>cl\<in>set cands. cl \<noteq> [] \<and> hd cl \<in> set channels
          \<and> length cl \<le> 2 * (ea_max_clustersize self div 2) + 1
          \<and> (\<forall>c\<in>set cl. c = hd cl \<or> c \<in> set valid_ind))
   \<and> (\<forall>c\<in>set (concat cands).
          c < ea_numchan self \<and> \<not> used_channels f ! c \<and> used_channels g ! c)
   \<and> (\<forall>c<ea_numchan self. used_channels f ! c \<longrightarrow> used_channels g ! c)"


subsection \<open>An analysis object for the examples\<close>

text \<open>
  An object on \<open>n\<close> channels with the defaults of the constructor (\<open>SN_cut\<close> 1, \<open>SN_ratio\<close>
  0.5, \<open>SN_cluster\<close> 6, \<open>tmin\<close> 0, sensor type n-in-p), pedestal 0 and noise 1 on every
  channel, common mode 0 with spread 1, and the given \<open>max_cluster_size\<close> and
  \<open>automasking\<close>.
\<close>

definition example_analysis :: "nat \<Rightarrow> nat \<Rightarrow> bool \<Rightarrow> event_analysis" where
  "example_analysis n m automasking =
     \<lparr>ea_numchan = n, ea_pedestal = replicate n (Num 0), ea_noise = replicate n (Num 1),
      ea_SN_cut = 1, ea_tmin = 0, ea_CMN = [Num 0], ea_CMsig = [Num 1],
      ea_automasked_hit = 0, ea_events = 0, ea_material = True, ea_masking = automasking,
      ea_max_clustersize = m, ea_SN_ratio = 1 / 2, ea_SN_cluster = 6\<rparr>"

text \<open>
  A family of calls that reach the bound on the cluster size. On \<open>2 * h + 3\<close> channels
  the seed is channel \<open>h + 1\<close>, with S/N 5 and signal -100; every other channel has S/N 0.7,
  above the neighbour level and below the seed cut, and signal 0. The cluster that grows
  from the seed takes one channel to the right and one to the left in each of the \<open>h\<close>
  rounds.
\<close>

definition wide_SN :: "nat \<Rightarrow> npfloat list" where
  "wide_SN h = (replicate (2 * h + 3) (Num (7 / 10)))[h + 1 := Num 5]"

definition wide_event :: "nat \<Rightarrow> npfloat list" where
  "wide_event h = (replicate (2 * h + 3) (Num 0))[h + 1 := Num (- 100)]"

definition wide_cluster :: "nat \<Rightarrow> nat \<Rightarrow> nat list" where
  "wide_cluster ch k = ch # concat (map (\<lambda>i. [ch + i, ch - i]) [1..<k + 1])"


section \<open>Facts about the array operations\<close>

lemma float64_overflow_large: "1000000 < float64_overflow"
  by (simp add: float64_overflow_def)

lemma np_finite_Num: "\<bar>r\<bar> < float64_overflow \<Longrightarrow> np_finite r = Num r"
  by (auto simp: np_finite_def)

lemma np_finite_small [simp]: "\<bar>r\<bar> \<le> 1000000 \<Longrightarrow> np_finite r = Num r"
  using float64_overflow_large by (intro np_finite_Num) simp





lemma sqrt16: "sqrt 16 = 4"
  using real_sqrt_abs [of 4] by simp

lemma sqrt64: "sqrt 64 = 8"
  using real_sqrt_abs [of 8] by simp

lemma delete_positions_upt:
  "delete_positions [0..<n] obj = filter (\<lambda>k. k \<notin> set obj) [0..<n]"
proof -
  have "map (\<lambda>k. [0..<n] ! k) (filter (\<lambda>k. k \<notin> set obj) [0..<n])
        = map (\<lambda>k. k) (filter (\<lambda>k. k \<notin> set obj) [0..<n])"
    by (rule map_cong) auto
  then show ?thesis by (simp add: delete_positions_def)
qed


section \<open>The pedestal\<close>








section \<open>Noisy strips\<close>

lemma list_all_filter_upt: "list_all (\<lambda>k. k < n) (filter P [0..<n])"
  unfolding list_all_iff by simp

lemma np_delete_upt:
  "np_delete [0..<n] obj =
     (if list_all (\<lambda>k. k < n) obj then Inr (filter (\<lambda>k. k \<notin> set obj) [0..<n]) else Inl IndexError)"
  by (simp add: np_delete_def delete_positions_upt)

lemma detect_noisy_strips_unfold:
  "detect_noisy_strips manual_mask Noise Noise_cut =
     (if manual_mask = [] then Inl IndexError
      else if list_all (\<lambda>k. k < length Noise) manual_mask
      then Inr (np_median Noise,
          filter (\<lambda>i. np_gt (Noise ! i) (np_add (np_median Noise) (Num Noise_cut)))
            [0..<length Noise] @ manual_mask,
          filter (\<lambda>k. k \<notin> set (filter (\<lambda>i. np_gt (Noise ! i)
                                    (np_add (np_median Noise) (Num Noise_cut)))
                            [0..<length Noise] @ manual_mask))
            [0..<length Noise])
      else Inl IndexError)"
  unfolding detect_noisy_strips_def Let_def np_delete_upt list_all_append
  by (simp only: list_all_filter_upt simp_thms sum.case split: if_split) blast

lemma detect_noisy_strips_Inr:
  assumes "manual_mask \<noteq> []" and "list_all (\<lambda>k. k < length Noise) manual_mask"
  shows "detect_noisy_strips manual_mask Noise Noise_cut =
     Inr (np_median Noise,
          filter (\<lambda>i. np_gt (Noise ! i) (np_add (np_median Noise) (Num Noise_cut)))
            [0..<length Noise] @ manual_mask,
          filter (\<lambda>k. k \<notin> set (filter (\<lambda>i. np_gt (Noise ! i)
                                    (np_add (np_median Noise) (Num Noise_cut)))
                            [0..<length Noise] @ manual_mask))
            [0..<length Noise])"
  by (simp only: detect_noisy_strips_unfold assms if_True if_False)

lemma detect_noisy_strips_IndexError:
  assumes "manual_mask = [] \<or> \<not> list_all (\<lambda>k. k < length Noise) manual_mask"
  shows "detect_noisy_strips manual_mask Noise Noise_cut = Inl IndexError"
proof (cases "manual_mask = []")
  case True
  then show ?thesis
    by (simp only: detect_noisy_strips_unfold simp_thms if_True)
next
  case False
  with assms have "\<not> list_all (\<lambda>k. k < length Noise) manual_mask"
    by blast
  with False show ?thesis
    by (simp only: detect_noisy_strips_unfold if_False)
qed

lemma detect_noisy_strips_good_le:
  assumes "detect_noisy_strips manual_mask Noise Noise_cut = Inr (m, noisy, good)"
  shows "length good \<le> length Noise"
proof (cases "manual_mask \<noteq> [] \<and> list_all (\<lambda>k. k < length Noise) manual_mask")
  case True
  let ?noisy = "filter (\<lambda>i. np_gt (Noise ! i) (np_add (np_median Noise) (Num Noise_cut)))
                  [0..<length Noise] @ manual_mask"
  have "Inr (m, noisy, good)
      = (Inr (np_median Noise, ?noisy, filter (\<lambda>k. k \<notin> set ?noisy) [0..<length Noise])
          :: error + (npfloat \<times> nat list \<times> nat list))"
    using detect_noisy_strips_Inr [OF conjunct1 [OF True] conjunct2 [OF True], of Noise_cut] assms
    by (simp only:)
  then have "good = filter (\<lambda>k. k \<notin> set ?noisy) [0..<length Noise]"
    by (simp only: sum.inject prod.inject)
  then have "length good \<le> length [0..<length Noise]"
    by (simp only: length_filter_le)
  then show ?thesis by simp
next
  case False
  then have "manual_mask = [] \<or> \<not> list_all (\<lambda>k. k < length Noise) manual_mask"
    by blast
  from detect_noisy_strips_IndexError [OF this, of Noise_cut] assms show ?thesis
    by simp
qed





section \<open>The two noise calculations\<close>

lemma noise_calc_loop_rows:
  "noise_calc_loop events pedestal n idx (score, a, b) = Inr (score', a', b') \<Longrightarrow>
   \<forall>row\<in>set score. length row = n \<Longrightarrow>
   (\<forall>row\<in>set score'. length row = n) \<and> length score' = length score"
proof (induction idx arbitrary: score a b)
  case Nil
  then show ?case by simp
next
  case (Cons event rest)
  from Cons.prems(1) obtain cm where
    ev: "event < length events" "event < length score"
    and cm: "np_elementwise np_sub (events ! event) pedestal = Inr cm"
    by (auto split: if_splits sum.splits)
  let ?cn = "map (\<lambda>x. np_sub x (np_mean cm)) cm"
  let ?row = "if length cm = n then ?cn else replicate n (hd ?cn)"
  have rec: "noise_calc_loop events pedestal n rest
               (score[event := ?row], a[event := np_mean cm], b[event := np_std cm])
             = Inr (score', a', b')"
    using Cons.prems(1) ev cm by (auto simp: Let_def split: if_splits)
  have len: "length ?row = n" by simp
  have "\<forall>row\<in>set (score[event := ?row]). length row = n"
  proof
    fix row assume "row \<in> set (score[event := ?row])"
    then have "row \<in> insert ?row (set score)"
      using set_update_subset_insert by fastforce
    then show "length row = n" using len Cons.prems(2) by auto
  qed
  from Cons.IH [OF rec this] show ?case by simp
qed

lemma noise_calc_rows:
  assumes "noise_calc ngood events pedestal numevents numchannels = Inr (score, a, b)"
  shows "(\<forall>row\<in>set score. length row = numchannels) \<and> length score = numevents"
  using noise_calc_loop_rows [OF assms [unfolded noise_calc_def]] by simp

text \<open>
  Claim C2, as amended. After the constructor, the noise is the standard deviation over the
  events of the residuals of the first noise calculation, which runs over all channels, and
  it has \<open>numchan\<close> entries. The second calculation, on \<^verbatim>\<open>signal[:, good_strips]\<close> and
  \<^verbatim>\<open>pedestal[good_strips]\<close>, gives \<open>score_raw\<close>, \<open>CMnoise\<close> and \<open>CMsig\<close>; the rows of
  \<open>score_raw\<close> have one entry per good strip.
\<close>

theorem noise_is_first_pass_noise:
  assumes "NoiseAnalysis_init data configs = Inr na"
  shows "\<exists>score1 CMnoise1 CMsig1.
      noise_calc (length (na_goodevents na)) (events_signal data) (na_pedestal na)
        (na_numevents na) (na_numchan na) = Inr (score1, CMnoise1, CMsig1)
    \<and> na_noise na = np_std_axis0 score1 (na_numchan na)
    \<and> length (na_noise na) = na_numchan na
    \<and> na_numchan na = length (header_pedestal data)
    \<and> noise_calc (length (na_goodevents na))
        (map (\<lambda>row. take_indices row (na_good_strips na)) (events_signal data))
        (take_indices (na_pedestal na) (na_good_strips na))
        (na_numevents na) (length (na_good_strips na))
        = Inr (na_score_raw na, na_CMnoise na, na_CMsig na)
    \<and> (\<forall>row\<in>set (na_score_raw na). length row = length (na_good_strips na))
    \<and> length (na_good_strips na) \<le> na_numchan na"
proof -
  let ?numchan = "length (header_pedestal data)"
  let ?numevents = "length (events_signal data)"
  let ?ngood = "length (filter (\<lambda>k. 0 \<le> events_time data ! k)
                          [0..<length (events_time data)])"
  let ?pedestal = "np_mean_axis0 (events_signal data) ?numchan"
  from assms obtain score1 CMnoise1 CMsig1 where
    p1: "noise_calc ?ngood (events_signal data) ?pedestal ?numevents ?numchan
           = Inr (score1, CMnoise1, CMsig1)"
    by (auto simp: NoiseAnalysis_init_def Let_def split: sum.splits prod.splits)
  from assms p1 obtain m noisy good where
    d: "detect_noisy_strips (cfg_Manual_mask configs) (np_std_axis0 score1 ?numchan)
          (cfg_Noise_cut configs) = Inr (m, noisy, good)"
    by (auto simp: NoiseAnalysis_init_def Let_def split: sum.splits prod.splits)
  from assms p1 d obtain score2 CMnoise2 CMsig2 where
    p2: "noise_calc ?ngood (map (\<lambda>row. take_indices row good) (events_signal data))
           (take_indices ?pedestal good) ?numevents (length good)
           = Inr (score2, CMnoise2, CMsig2)"
    by (auto simp: NoiseAnalysis_init_def Let_def split: sum.splits prod.splits)
  from assms p1 d p2 have na:
    "na_numchan na = ?numchan" "na_numevents na = ?numevents" "na_pedestal na = ?pedestal"
    "na_noise na = np_std_axis0 score1 ?numchan" "length (na_goodevents na) = ?ngood"
    "na_good_strips na = good" "na_score_raw na = score2" "na_CMnoise na = CMnoise2"
    "na_CMsig na = CMsig2"
    by (auto simp: NoiseAnalysis_init_def Let_def split: if_splits)
  have rows: "\<forall>row\<in>set score2. length row = length good"
    using noise_calc_rows [OF p2] by simp
  have le: "length good \<le> ?numchan"
    using detect_noisy_strips_good_le [OF d] by (simp add: np_std_axis0_def)
  have len: "length (np_std_axis0 score1 ?numchan) = ?numchan"
    by (simp add: np_std_axis0_def)
  show ?thesis
    using p1 p2 rows le len na by simp
qed

text \<open>The theorem at one event on two channels, channel 0 masked by hand.\<close>

theorem noise_is_first_pass_noise_witness:
  "NoiseAnalysis_init
      \<lparr>header_pedestal = [Num 0, Num 0], events_signal = [[Num 1, Num 2]],
       events_time = [0]\<rparr>
      \<lparr>cfg_Noise_cut = 5, cfg_Manual_mask = [0]\<rparr>
   = Inr \<lparr>na_numchan = 2, na_numevents = 1, na_pedestal = [Num 1, Num 2],
          na_noise = [Num 0, Num 0], na_goodevents = [0], na_noise_cut = 5, na_mask = [0],
          na_signal = [[Num 1, Num 2]], na_score_raw = [[Num 0]], na_CMnoise = [Num 0],
          na_CMsig = [Num 0], na_median_noise = Num 0, na_noisy_strips = [0],
          na_good_strips = [1], na_score = [[Num 0, Num 0]],
          na_total_noise = [Num 0, Num 0]\<rparr>
   \<and> length [Num 0, Num 0 :: npfloat] = 2 \<and> length [1::nat] \<le> 2"
proof -
  have e: "NoiseAnalysis_init
      \<lparr>header_pedestal = [Num 0, Num 0], events_signal = [[Num 1, Num 2]],
       events_time = [0]\<rparr>
      \<lparr>cfg_Noise_cut = 5, cfg_Manual_mask = [0]\<rparr>
   = Inr \<lparr>na_numchan = 2, na_numevents = 1, na_pedestal = [Num 1, Num 2],
          na_noise = [Num 0, Num 0], na_goodevents = [0], na_noise_cut = 5, na_mask = [0],
          na_signal = [[Num 1, Num 2]], na_score_raw = [[Num 0]], na_CMnoise = [Num 0],
          na_CMsig = [Num 0], na_median_noise = Num 0, na_noisy_strips = [0],
          na_good_strips = [1], na_score = [[Num 0, Num 0]],
          na_total_noise = [Num 0, Num 0]\<rparr>"
    by (simp add: NoiseAnalysis_init_def noise_calc_def np_mean_axis0_def np_std_axis0_def
      np_std_def column_def np_mean_def upt_conv_Cons detect_noisy_strips_def np_median_def
      np_delete_def delete_positions_def np_gt_def take_indices_def np_elementwise_def
      np_sub_def Let_def)
  show ?thesis
    using noise_is_first_pass_noise [OF e] e by simp
qed

text \<open>
  Claim C2 as stated fails: with two events on three channels and channel 2 noisy and
  masked, the good strips are 0 and 1, the residuals of the second calculation are zero, but
  the noise keeps the three values 4, 4, 8 of the first calculation.
\<close>

theorem final_noise_counterexample:
  "map_sum id na_noise (NoiseAnalysis_init
      \<lparr>header_pedestal = [Num 0, Num 0, Num 0],
       events_signal = [[Num 0, Num 0, Num 12], [Num 0, Num 0, Num (- 12)]],
       events_time = [1, 2]\<rparr>
      \<lparr>cfg_Noise_cut = 3, cfg_Manual_mask = [2]\<rparr>) = Inr [Num 4, Num 4, Num 8]
  \<and> map_sum id na_good_strips (NoiseAnalysis_init
      \<lparr>header_pedestal = [Num 0, Num 0, Num 0],
       events_signal = [[Num 0, Num 0, Num 12], [Num 0, Num 0, Num (- 12)]],
       events_time = [1, 2]\<rparr>
      \<lparr>cfg_Noise_cut = 3, cfg_Manual_mask = [2]\<rparr>) = Inr [0, 1]
  \<and> map_sum id na_score_raw (NoiseAnalysis_init
      \<lparr>header_pedestal = [Num 0, Num 0, Num 0],
       events_signal = [[Num 0, Num 0, Num 12], [Num 0, Num 0, Num (- 12)]],
       events_time = [1, 2]\<rparr>
      \<lparr>cfg_Noise_cut = 3, cfg_Manual_mask = [2]\<rparr>) = Inr [[Num 0, Num 0], [Num 0, Num 0]]
  \<and> np_std_axis0 [[Num 0, Num 0], [Num 0, Num 0]] 2 = [Num 0, Num 0]"
  by (simp add: NoiseAnalysis_init_def noise_calc_def np_mean_axis0_def np_std_axis0_def
      np_std_def column_def np_mean_def upt_conv_Cons detect_noisy_strips_def np_median_def
      np_delete_def delete_positions_def np_gt_def take_indices_def np_elementwise_def
      np_sub_def sqrt16 sqrt64 Let_def)


section \<open>process\_event\<close>

lemma np_elementwise_same_length:
  "length a = length b \<Longrightarrow> np_elementwise f a b = Inr (map2 f a b)"
  by (simp add: np_elementwise_def)

lemma process_event_equal_lengths:
  assumes "length event = length pedestal" and "length noise = length event"
  shows "process_event event pedestal meanCMN meanCMsig noise numchan =
     (let signal = map2 np_sub event pedestal;
          prosignal = filter (\<lambda>x. np_lt x (np_add (np_mul (Num 5) meanCMsig) meanCMN)) signal
      in if list_ex (\<lambda>x. x \<noteq> Num 0) prosignal
         then Inr (map (\<lambda>x. np_sub x (np_mean prosignal)) signal,
                   map2 np_div (map (\<lambda>x. np_sub x (np_mean prosignal)) signal) noise,
                   np_mean prosignal, np_std prosignal)
         else Inr (replicate numchan (Num 0), replicate numchan (Num 0), Num 0, Num 0))"
proof -
  have a: "np_elementwise np_sub event pedestal = Inr (map2 np_sub event pedestal)"
    using assms(1) by (rule np_elementwise_same_length)
  have b: "\<And>m. np_elementwise np_div (map (\<lambda>x. np_sub x m) (map2 np_sub event pedestal)) noise
      = Inr (map2 np_div (map (\<lambda>x. np_sub x m) (map2 np_sub event pedestal)) noise)"
    using assms by (intro np_elementwise_same_length) simp
  show ?thesis
    unfolding process_event_def a sum.case Let_def b
    by (simp only: if_cancel)
qed

lemma np_div_zero_not_finite: "\<not> is_finite (np_div x (Num 0))"
  by (cases x) simp_all

text \<open>
  Claim C3, as amended. On vectors of equal length \<^verbatim>\<open>process_event\<close> returns normally, also
  when the noise profile holds a zero. When the trimmed signal has an entry that is not
  zero, every S/N entry is the floating-point quotient of the corrected signal and the
  noise, and it is an infinity or NaN wherever the noise is zero.
\<close>

theorem process_event_zero_noise:
  assumes "length event = length pedestal" and "length noise = length event"
  shows "\<exists>signal SN CMN CMsig.
      process_event event pedestal meanCMN meanCMsig noise numchan = Inr (signal, SN, CMN, CMsig)
    \<and> (list_ex (\<lambda>x. x \<noteq> Num 0)
          (filter (\<lambda>x. np_lt x (np_add (np_mul (Num 5) meanCMsig) meanCMN))
             (map2 np_sub event pedestal))
        \<longrightarrow> length SN = length event
          \<and> (\<forall>c<length event. SN ! c = np_div (signal ! c) (noise ! c))
          \<and> (\<forall>c<length event. noise ! c = Num 0 \<longrightarrow> \<not> is_finite (SN ! c)))"
proof (cases "list_ex (\<lambda>x. x \<noteq> Num 0)
          (filter (\<lambda>x. np_lt x (np_add (np_mul (Num 5) meanCMsig) meanCMN))
             (map2 np_sub event pedestal))")
  case True
  let ?signal = "map2 np_sub event pedestal"
  let ?prosignal = "filter (\<lambda>x. np_lt x (np_add (np_mul (Num 5) meanCMsig) meanCMN)) ?signal"
  let ?corr = "map (\<lambda>x. np_sub x (np_mean ?prosignal)) ?signal"
  let ?SN = "map2 np_div ?corr noise"
  have r: "process_event event pedestal meanCMN meanCMsig noise numchan
      = Inr (?corr, ?SN, np_mean ?prosignal, np_std ?prosignal)"
    unfolding process_event_equal_lengths [OF assms] Let_def using True by (simp only: if_True)
  have len: "length ?SN = length event"
    using assms by simp
  have lc: "length ?corr = length event"
    using assms by simp
  have q: "\<forall>c<length event. ?SN ! c = np_div (?corr ! c) (noise ! c)"
  proof (intro allI impI)
    fix c assume "c < length event"
    then have "c < length (zip ?corr noise)"
      using lc assms(2) by simp
    then show "?SN ! c = np_div (?corr ! c) (noise ! c)"
      by (simp only: nth_map nth_zip length_zip min_less_iff_conj prod.case)
  qed
  have z: "\<forall>c<length event. noise ! c = Num 0 \<longrightarrow> \<not> is_finite (?SN ! c)"
    using q np_div_zero_not_finite by metis
  show ?thesis
    using r len q z by blast
next
  case False
  have "process_event event pedestal meanCMN meanCMsig noise numchan
      = Inr (replicate numchan (Num 0), replicate numchan (Num 0), Num 0, Num 0)"
    unfolding process_event_equal_lengths [OF assms] Let_def using False by (simp only: if_False)
  then show ?thesis
    using False by blast
qed


theorem process_event_zero_noise_witness:
  "process_event [Num 2, Num 2] [Num 0, Num 0] (Num 0) (Num 1) [Num 0, Num 2] 2
     = Inr ([Num 0, Num 0], [NaN, Num 0], Num 2, Num 0)
   \<and> \<not> is_finite ([NaN, Num 0] ! 0)
   \<and> [NaN, Num 0] ! 1 = np_div ([Num 0, Num 0] ! 1) ([Num 0, Num 2] ! 1)"
proof -
  have h1: "length [Num 2, Num 2] = length [Num 0, Num 0 :: npfloat]"
    by simp
  have h2: "length [Num 0, Num 2] = length [Num 2, Num 2 :: npfloat]"
    by simp
  have e: "process_event [Num 2, Num 2] [Num 0, Num 0] (Num 0) (Num 1) [Num 0, Num 2] 2
     = Inr ([Num 0, Num 0], [NaN, Num 0], Num 2, Num 0)"
    by (simp add: process_event_def np_elementwise_def np_mean_def np_std_def np_sub_def Let_def)
  have t: "list_ex (\<lambda>x. x \<noteq> Num 0)
          (filter (\<lambda>x. np_lt x (np_add (np_mul (Num 5) (Num 1)) (Num 0)))
             (map2 np_sub [Num 2, Num 2] [Num 0, Num 0]))"
    by (simp add: np_sub_def)
  from process_event_zero_noise [OF h1 h2, of "Num 0" "Num 1" 2] t
  obtain signal SN CMN CMsig where
    r: "process_event [Num 2, Num 2] [Num 0, Num 0] (Num 0) (Num 1) [Num 0, Num 2] 2
          = Inr (signal, SN, CMN, CMsig)"
    and q: "\<forall>c<length [Num 2, Num 2 :: npfloat]. SN ! c = np_div (signal ! c) ([Num 0, Num 2] ! c)"
    and z: "\<forall>c<length [Num 2, Num 2 :: npfloat].
              [Num 0, Num 2] ! c = Num 0 \<longrightarrow> \<not> is_finite (SN ! c)"
    by blast
  from r e have s: "signal = [Num 0, Num 0]" "SN = [NaN, Num 0]"
    by auto
  from z [rule_format, of 0] have z0: "\<not> is_finite (SN ! 0)"
    by simp
  from q [rule_format, of 1] have q1: "SN ! 1 = np_div (signal ! 1) ([Num 0, Num 2] ! 1)"
    by simp
  from e z0 q1 show ?thesis
    unfolding s by (intro conjI)
qed

text \<open>
  Claim C3 as stated fails: with a noise profile holding two zeros the call returns, and the
  S/N vector it returns holds an infinity and a NaN.
\<close>

theorem process_event_zero_noise_counterexample:
  "process_event [Num 10, Num 1, Num 1] [Num 0, Num 0, Num 0] (Num 0) (Num 1)
      [Num 0, Num 1, Num 0] 3
     = Inr ([Num 9, Num 0, Num 0], [PosInf, Num 0, NaN], Num 1, Num 0)"
  by (simp add: process_event_def np_elementwise_def np_mean_def np_std_def np_sub_def Let_def)

text \<open>
  Claim C5 at an event whose trimmed signal is not empty but holds zeros only: the channels
  0 and 1 are below the trim level 5 and channel 2 is above it. The claim asks for the signal
  0, 0, 10 (the mean of the trimmed signal being 0); the code returns the zero vectors,
  because \<^verbatim>\<open>prosignal.any()\<close> is false.
\<close>

theorem process_event_zero_trim:
  "filter (\<lambda>x. np_lt x (np_add (np_mul (Num 5) (Num 1)) (Num 0)))
       (map2 np_sub [Num 0, Num 0, Num 10] [Num 0, Num 0, Num 0]) = [Num 0, Num 0]
   \<and> process_event [Num 0, Num 0, Num 10] [Num 0, Num 0, Num 0] (Num 0) (Num 1)
        [Num 1, Num 1, Num 1] 3
     = Inr ([Num 0, Num 0, Num 0], [Num 0, Num 0, Num 0], Num 0, Num 0)"
  by (simp add: process_event_def np_elementwise_def np_mean_def np_std_def np_sub_def Let_def
      numeral_3_eq_3)


section \<open>The neighbour loop\<close>

lemma right_step_add_channel:
  "right_step self SN valid_ind ch i f =
     (if np_gt (np_abs (SN ! (ch + i))) (Num (ea_SN_cut self * ea_SN_ratio self))
         \<and> \<not> used_channels f ! (ch + i) \<and> ch + i \<in> set valid_ind \<and> \<not> right_stop f
      then add_channel (ch + i) f
      else if np_lt (np_abs (SN ! (ch + i))) (Num (ea_SN_cut self * ea_SN_ratio self))
      then f\<lparr>right_stop := True\<rparr>
      else f)"
  unfolding right_step_def add_channel_def by (rule refl)

lemma left_step_add_channel:
  "left_step self SN valid_ind ch i f =
     (if np_gt (np_abs (SN ! (ch - i))) (Num (ea_SN_cut self * ea_SN_ratio self))
         \<and> \<not> used_channels f ! (ch - i) \<and> ch - i \<in> set valid_ind \<and> \<not> left_stop f
      then add_channel (ch - i) f
      else if np_lt (np_abs (SN ! (ch - i))) (Num (ea_SN_cut self * ea_SN_ratio self))
      then f\<lparr>left_stop := True\<rparr>
      else f)"
  unfolding left_step_def add_channel_def by (rule refl)

lemma cluster_inv_add_channel:
  assumes inv: "cluster_inv n valid_ind u0 ch f"
    and c: "c < n" "\<not> used_channels f ! c" "c \<in> set valid_ind"
  shows "cluster_inv n valid_ind u0 ch (add_channel c f)"
proof -
  from inv have len: "length (used_channels f) = n" "length u0 = n"
    and ne: "cluster f \<noteq> []" and hd: "hd (cluster f) = ch"
    and dist: "distinct (cluster f)" and sz: "csize f = length (cluster f)"
    and mem: "\<forall>c\<in>set (cluster f). c < n \<and> \<not> u0 ! c \<and> (c = ch \<or> c \<in> set valid_ind)"
    and used: "\<forall>c<n. used_channels f ! c = (u0 ! c \<or> c \<in> set (cluster f))"
    unfolding cluster_inv_def by blast+
  from used c have fresh: "\<not> u0 ! c" "c \<notin> set (cluster f)"
    by blast+
  have 1: "length (used_channels (add_channel c f)) = n"
    using len by (simp add: add_channel_def)
  have 2: "cluster (add_channel c f) \<noteq> []" "hd (cluster (add_channel c f)) = ch"
    using ne hd by (simp_all add: add_channel_def)
  have 3: "distinct (cluster (add_channel c f))"
    using dist fresh by (simp add: add_channel_def)
  have 4: "csize (add_channel c f) = length (cluster (add_channel c f))"
    using sz by (simp add: add_channel_def)
  have 5: "\<forall>k\<in>set (cluster (add_channel c f)).
             k < n \<and> \<not> u0 ! k \<and> (k = ch \<or> k \<in> set valid_ind)"
    using mem c fresh by (simp add: add_channel_def)
  have 6: "\<forall>k<n. used_channels (add_channel c f) ! k
             = (u0 ! k \<or> k \<in> set (cluster (add_channel c f)))"
  proof (intro allI impI)
    fix k assume k: "k < n"
    show "used_channels (add_channel c f) ! k
             = (u0 ! k \<or> k \<in> set (cluster (add_channel c f)))"
    proof (cases "k = c")
      case True
      then show ?thesis using c len by (simp add: add_channel_def)
    next
      case False
      then show ?thesis using used k by (simp add: add_channel_def)
    qed
  qed
  show ?thesis
    unfolding cluster_inv_def using 1 len(2) 2 3 4 5 6 by blast
qed

lemma cluster_inv_stop:
  "cluster_inv n valid_ind u0 ch f \<Longrightarrow> cluster_inv n valid_ind u0 ch (f\<lparr>right_stop := b\<rparr>)"
  "cluster_inv n valid_ind u0 ch f \<Longrightarrow> cluster_inv n valid_ind u0 ch (f\<lparr>left_stop := b\<rparr>)"
  by (simp_all add: cluster_inv_def)

lemma cluster_inv_right_step:
  assumes "cluster_inv n valid_ind u0 ch f" and "ch + i < n"
  shows "cluster_inv n valid_ind u0 ch (right_step self SN valid_ind ch i f)"
  unfolding right_step_add_channel
  using assms by (simp add: cluster_inv_add_channel cluster_inv_stop)

lemma cluster_inv_left_step:
  assumes "cluster_inv n valid_ind u0 ch f" and "ch - i < n"
  shows "cluster_inv n valid_ind u0 ch (left_step self SN valid_ind ch i f)"
  unfolding left_step_add_channel
  using assms by (simp add: cluster_inv_add_channel cluster_inv_stop)

lemma cluster_inv_neighbour_step:
  assumes "cluster_inv (ea_numchan self) valid_ind u0 ch f"
  shows "cluster_inv (ea_numchan self) valid_ind u0 ch (neighbour_step self SN valid_ind ch i f)"
proof (cases "i < ch \<and> ch + i < ea_numchan self")
  case True
  then have "ch - i < ea_numchan self" by arith
  moreover have "neighbour_step self SN valid_ind ch i f
      = left_step self SN valid_ind ch i (right_step self SN valid_ind ch i f)"
    using True by (simp add: neighbour_step_def)
  ultimately show ?thesis
    using True assms by (simp add: cluster_inv_left_step cluster_inv_right_step)
next
  case False
  then have "neighbour_step self SN valid_ind ch i f = f"
    by (auto simp add: neighbour_step_def)
  with assms show ?thesis
    by simp
qed

lemma cluster_inv_fold:
  "cluster_inv (ea_numchan self) valid_ind u0 ch f \<Longrightarrow>
   cluster_inv (ea_numchan self) valid_ind u0 ch
     (fold (neighbour_step self SN valid_ind ch) is f)"
  by (induction "is" arbitrary: f) (simp_all add: cluster_inv_neighbour_step)

lemma cluster_inv_grow:
  assumes "length (used_channels f) = ea_numchan self" and "ch < ea_numchan self"
    and "\<not> used_channels f ! ch"
  shows "cluster_inv (ea_numchan self) valid_ind (used_channels f) ch
           (grow self SN valid_ind ch f)"
proof -
  let ?f1 = "f\<lparr>used_channels := (used_channels f)[ch := True], cluster := [ch], csize := 1,
              right_stop := False, left_stop := False\<rparr>"
  have "cluster_inv (ea_numchan self) valid_ind (used_channels f) ch ?f1"
    unfolding cluster_inv_def using assms by (auto simp: nth_list_update)
  then show ?thesis
    unfolding grow_def Let_def by (rule cluster_inv_fold)
qed


lemma add_channel_outputs:
  "numclus (add_channel c f) = numclus f"
  "clusters_list (add_channel c f) = clusters_list f"
  "clustersize (add_channel c f) = clustersize f"
  "length (cluster (add_channel c f)) = length (cluster f) + 1"
  by (simp_all add: add_channel_def)

lemma right_step_outputs:
  "numclus (right_step self SN valid_ind ch i f) = numclus f"
  "clusters_list (right_step self SN valid_ind ch i f) = clusters_list f"
  "clustersize (right_step self SN valid_ind ch i f) = clustersize f"
  "length (cluster (right_step self SN valid_ind ch i f)) \<le> length (cluster f) + 1"
  unfolding right_step_add_channel by (simp_all add: add_channel_outputs)

lemma left_step_outputs:
  "numclus (left_step self SN valid_ind ch i f) = numclus f"
  "clusters_list (left_step self SN valid_ind ch i f) = clusters_list f"
  "clustersize (left_step self SN valid_ind ch i f) = clustersize f"
  "length (cluster (left_step self SN valid_ind ch i f)) \<le> length (cluster f) + 1"
  unfolding left_step_add_channel by (simp_all add: add_channel_outputs)

lemma neighbour_step_outputs:
  "numclus (neighbour_step self SN valid_ind ch i f) = numclus f"
  "clusters_list (neighbour_step self SN valid_ind ch i f) = clusters_list f"
  "clustersize (neighbour_step self SN valid_ind ch i f) = clustersize f"
  by (simp_all add: neighbour_step_def left_step_outputs right_step_outputs)

lemma neighbour_step_length:
  "length (cluster (neighbour_step self SN valid_ind ch i f)) \<le> length (cluster f) + 2"
proof -
  have "length (cluster (left_step self SN valid_ind ch i (right_step self SN valid_ind ch i f)))
        \<le> length (cluster (right_step self SN valid_ind ch i f)) + 1"
    by (rule left_step_outputs(4))
  also have "\<dots> \<le> (length (cluster f) + 1) + 1"
    using right_step_outputs(4) [of self SN valid_ind ch i f] by simp
  finally show ?thesis
    by (simp add: neighbour_step_def)
qed

lemma fold_neighbour_step_outputs:
  "numclus (fold (neighbour_step self SN valid_ind ch) is f) = numclus f
   \<and> clusters_list (fold (neighbour_step self SN valid_ind ch) is f) = clusters_list f
   \<and> clustersize (fold (neighbour_step self SN valid_ind ch) is f) = clustersize f
   \<and> length (cluster (fold (neighbour_step self SN valid_ind ch) is f))
        \<le> length (cluster f) + 2 * length is"
proof (induction "is" arbitrary: f)
  case Nil
  show ?case by simp
next
  case (Cons i "is")
  let ?f = "neighbour_step self SN valid_ind ch i f"
  from Cons.IH [of ?f] neighbour_step_length [of self SN valid_ind ch i f]
  have "length (cluster (fold (neighbour_step self SN valid_ind ch) is ?f))
        \<le> length (cluster f) + 2 * length (i # is)"
    by simp
  with Cons.IH [of ?f] show ?case
    by (simp add: neighbour_step_outputs)
qed

lemma grow_outputs:
  "numclus (grow self SN valid_ind ch f) = numclus f"
  "clusters_list (grow self SN valid_ind ch f) = clusters_list f"
  "clustersize (grow self SN valid_ind ch f) = clustersize f"
  "length (cluster (grow self SN valid_ind ch f)) \<le> 2 * (ea_max_clustersize self div 2) + 1"
proof -
  define f1 where "f1 = f\<lparr>used_channels := (used_channels f)[ch := True], cluster := [ch],
              csize := 1, right_stop := False, left_stop := False\<rparr>"
  define js where "js = [1..<ea_max_clustersize self div 2 + 1]"
  have g: "grow self SN valid_ind ch f = fold (neighbour_step self SN valid_ind ch) js f1"
    unfolding grow_def Let_def f1_def js_def by (rule refl)
  have l: "length js = ea_max_clustersize self div 2"
    unfolding js_def by simp
  have f1: "numclus f1 = numclus f" "clusters_list f1 = clusters_list f"
    "clustersize f1 = clustersize f" "length (cluster f1) = 1"
    unfolding f1_def by simp_all
  note o = fold_neighbour_step_outputs [of self SN valid_ind ch js f1]
  show "numclus (grow self SN valid_ind ch f) = numclus f"
    unfolding g using o f1 by simp
  show "clusters_list (grow self SN valid_ind ch f) = clusters_list f"
    unfolding g using o f1 by simp
  show "clustersize (grow self SN valid_ind ch f) = clustersize f"
    unfolding g using o f1 by simp
  show "length (cluster (grow self SN valid_ind ch f)) \<le> 2 * (ea_max_clustersize self div 2) + 1"
    unfolding g using o f1 l by simp
qed


section \<open>The loop over the hit channels\<close>

lemma seed_step_used:
  "used_channels f ! ch \<Longrightarrow> seed_step self event SN valid_ind ch f = f"
  by (simp add: seed_step_def)

lemma seed_step_unused:
  assumes "\<not> used_channels f ! ch"
  shows "used_channels (seed_step self event SN valid_ind ch f)
           = used_channels (grow self SN valid_ind ch f)"
    and "clusters_list (seed_step self event SN valid_ind ch f)
           = clusters_list f @ filter (accepted self event) [cluster (grow self SN valid_ind ch f)]"
    and "numclus (seed_step self event SN valid_ind ch f)
           = numclus f + length (filter (accepted self event)
                                   [cluster (grow self SN valid_ind ch f)])"
    and "clustersize (seed_step self event SN valid_ind ch f)
           = clustersize f @ map (\<lambda>cl. csize (grow self SN valid_ind ch f))
                               (filter (accepted self event)
                                  [cluster (grow self SN valid_ind ch f)])"
  using assms by (simp_all add: seed_step_def Let_def grow_outputs)

lemma seed_loop:
  assumes "length (used_channels f) = ea_numchan self"
    and "\<forall>ch\<in>set channels. ch < ea_numchan self"
  shows "loop_spec self event valid_ind channels
           (candidates self event SN valid_ind channels f) f
           (fold (seed_step self event SN valid_ind) channels f)"
  using assms
proof (induction channels arbitrary: f)
  case Nil
  then show ?case
    by (simp add: loop_spec_def)
next
  case (Cons ch channels)
  let ?n = "ea_numchan self"
  let ?acc = "accepted self event"
  have chn: "ch < ?n" and rest: "\<forall>ch\<in>set channels. ch < ?n"
    using Cons.prems(2) by simp_all
  show ?case
  proof (cases "used_channels f ! ch")
    case True
    have ih: "loop_spec self event valid_ind channels
           (candidates self event SN valid_ind channels f) f
           (fold (seed_step self event SN valid_ind) channels f)"
      using Cons.IH [OF Cons.prems(1) rest] .
    have c: "candidates self event SN valid_ind (ch # channels) f
               = candidates self event SN valid_ind channels f"
      using True by simp
    have g: "fold (seed_step self event SN valid_ind) (ch # channels) f
               = fold (seed_step self event SN valid_ind) channels f"
      using True by (simp add: seed_step_used)
    show ?thesis
      unfolding c g using ih unfolding loop_spec_def by auto
  next
    case False
    define g1 where "g1 = grow self SN valid_ind ch f"
    define f' where "f' = seed_step self event SN valid_ind ch f"
    define cands where "cands = candidates self event SN valid_ind channels f'"
    define g where "g = fold (seed_step self event SN valid_ind) channels f'"
    have inv: "cluster_inv ?n valid_ind (used_channels f) ch g1"
      unfolding g1_def using Cons.prems(1) chn False by (rule cluster_inv_grow)
    then have g1len: "length (used_channels g1) = ?n"
      and g1ne: "cluster g1 \<noteq> []" and g1hd: "hd (cluster g1) = ch"
      and g1dist: "distinct (cluster g1)" and g1sz: "csize g1 = length (cluster g1)"
      and g1mem: "\<forall>c\<in>set (cluster g1). c < ?n \<and> \<not> used_channels f ! c
                     \<and> (c = ch \<or> c \<in> set valid_ind)"
      and g1used: "\<forall>c<?n. used_channels g1 ! c = (used_channels f ! c \<or> c \<in> set (cluster g1))"
      unfolding cluster_inv_def by blast+
    have g1bound: "length (cluster g1) \<le> 2 * (ea_max_clustersize self div 2) + 1"
      unfolding g1_def by (rule grow_outputs(4))
    have f'used: "used_channels f' = used_channels g1"
      unfolding f'_def g1_def using False by (rule seed_step_unused(1))
    have f'cl: "clusters_list f' = clusters_list f @ filter ?acc [cluster g1]"
      unfolding f'_def g1_def using False by (rule seed_step_unused(2))
    have f'num: "numclus f' = numclus f + length (filter ?acc [cluster g1])"
      unfolding f'_def g1_def using False by (rule seed_step_unused(3))
    have f'sz: "clustersize f' = clustersize f @ map length (filter ?acc [cluster g1])"
      using seed_step_unused(4) [OF False, of self event SN valid_ind] g1sz
      unfolding f'_def g1_def by simp
    have f'len: "length (used_channels f') = ?n"
      using f'used g1len by simp
    have ih: "loop_spec self event valid_ind channels cands f' g"
      unfolding cands_def g_def using Cons.IH [OF f'len rest] .
    then have ih1: "clusters_list g = clusters_list f' @ filter ?acc cands"
      and ih2: "numclus g = numclus f' + length (filter ?acc cands)"
      and ih3: "clustersize g = clustersize f' @ map length (filter ?acc cands)"
      and ih4: "length (used_channels g) = ?n"
      and ih5: "distinct (concat cands)"
      and ih6: "\<forall>cl\<in>set cands. cl \<noteq> [] \<and> hd cl \<in> set channels
          \<and> length cl \<le> 2 * (ea_max_clustersize self div 2) + 1
          \<and> (\<forall>c\<in>set cl. c = hd cl \<or> c \<in> set valid_ind)"
      and ih7: "\<forall>c\<in>set (concat cands). c < ?n \<and> \<not> used_channels f' ! c \<and> used_channels g ! c"
      and ih8: "\<forall>c<?n. used_channels f' ! c \<longrightarrow> used_channels g ! c"
      unfolding loop_spec_def by blast+
    have c: "candidates self event SN valid_ind (ch # channels) f = cluster g1 # cands"
      unfolding cands_def f'_def g1_def using False by simp
    have gg: "fold (seed_step self event SN valid_ind) (ch # channels) f = g"
      unfolding g_def f'_def by simp
    have 1: "clusters_list g = clusters_list f @ filter ?acc (cluster g1 # cands)"
      using ih1 f'cl by simp
    have 2: "numclus g = numclus f + length (filter ?acc (cluster g1 # cands))"
      using ih2 f'num by simp
    have 3: "clustersize g = clustersize f @ map length (filter ?acc (cluster g1 # cands))"
      using ih3 f'sz by simp
    have disj: "set (cluster g1) \<inter> set (concat cands) = {}"
    proof (rule ccontr)
      assume "set (cluster g1) \<inter> set (concat cands) \<noteq> {}"
      then obtain k where k1: "k \<in> set (cluster g1)" and k2: "k \<in> set (concat cands)"
        by blast
      from k1 g1mem have "k < ?n" by blast
      with k1 g1used have "used_channels g1 ! k" by blast
      moreover from k2 ih7 have "\<not> used_channels f' ! k" by blast
      ultimately show False using f'used by simp
    qed
    have 5: "distinct (concat (cluster g1 # cands))"
      using g1dist ih5 disj by simp
    have 6: "\<forall>cl\<in>set (cluster g1 # cands). cl \<noteq> [] \<and> hd cl \<in> set (ch # channels)
          \<and> length cl \<le> 2 * (ea_max_clustersize self div 2) + 1
          \<and> (\<forall>c\<in>set cl. c = hd cl \<or> c \<in> set valid_ind)"
    proof
      fix cl assume "cl \<in> set (cluster g1 # cands)"
      then consider "cl = cluster g1" | "cl \<in> set cands" by auto
      then show "cl \<noteq> [] \<and> hd cl \<in> set (ch # channels)
          \<and> length cl \<le> 2 * (ea_max_clustersize self div 2) + 1
          \<and> (\<forall>c\<in>set cl. c = hd cl \<or> c \<in> set valid_ind)"
      proof cases
        case 1
        then show ?thesis using g1ne g1hd g1bound g1mem by simp
      next
        case 2
        then show ?thesis using ih6 by simp
      qed
    qed
    have 7: "\<forall>c\<in>set (concat (cluster g1 # cands)).
               c < ?n \<and> \<not> used_channels f ! c \<and> used_channels g ! c"
    proof
      fix k assume "k \<in> set (concat (cluster g1 # cands))"
      then consider "k \<in> set (cluster g1)" | "k \<in> set (concat cands)" by auto
      then show "k < ?n \<and> \<not> used_channels f ! k \<and> used_channels g ! k"
      proof cases
        case 1
        with g1mem have a: "k < ?n" "\<not> used_channels f ! k" by blast+
        with 1 g1used have "used_channels f' ! k" using f'used by simp
        with a ih8 show ?thesis by blast
      next
        case 2
        with ih7 have a: "k < ?n" "\<not> used_channels f' ! k" "used_channels g ! k" by blast+
        with g1used f'used have "\<not> used_channels f ! k" by simp
        with a show ?thesis by blast
      qed
    qed
    have 8: "\<forall>c<?n. used_channels f ! c \<longrightarrow> used_channels g ! c"
      using g1used f'used ih8 by simp
    show ?thesis
      unfolding c gg loop_spec_def using 1 2 3 ih4 5 6 7 8 by blast
  qed
qed


section \<open>clustering\<close>

lemma delete_positions_filter:
  "delete_positions arr (filter (\<lambda>k. P (arr ! k)) [0..<length arr]) = filter (\<lambda>x. \<not> P x) arr"
proof -
  have "filter (\<lambda>k. k \<notin> set (filter (\<lambda>k. P (arr ! k)) [0..<length arr])) [0..<length arr]
        = filter (\<lambda>k. \<not> P (arr ! k)) [0..<length arr]"
    by (rule filter_cong) auto
  then have "delete_positions arr (filter (\<lambda>k. P (arr ! k)) [0..<length arr])
        = map (\<lambda>k. arr ! k) (filter ((\<lambda>x. \<not> P x) \<circ> (\<lambda>k. arr ! k)) [0..<length arr])"
    by (simp add: delete_positions_def comp_def)
  also have "\<dots> = filter (\<lambda>x. \<not> P x) (map (\<lambda>k. arr ! k) [0..<length arr])"
    by (simp only: filter_map)
  also have "\<dots> = filter (\<lambda>x. \<not> P x) arr"
    by (simp only: map_nth)
  finally show ?thesis .
qed

lemma length_filter_positions:
  "length (filter (\<lambda>k. P (arr ! k)) [0..<length arr]) = length (filter P arr)"
proof -
  have "length (filter P arr) = length (filter P (map (\<lambda>k. arr ! k) [0..<length arr]))"
    by (simp only: map_nth)
  also have "\<dots> = length (map (\<lambda>k. arr ! k) (filter (P \<circ> (\<lambda>k. arr ! k)) [0..<length arr]))"
    by (simp only: filter_map)
  also have "\<dots> = length (filter (\<lambda>k. P (arr ! k)) [0..<length arr])"
    by (simp add: comp_def)
  finally show ?thesis by simp
qed

lemma automask_eq:
  "automask self event channels =
     (if ea_masking self then
        (if ea_material self then
           (self\<lparr>ea_automasked_hit := ea_automasked_hit self
                     + length (filter (\<lambda>ch. np_gt (event ! ch) (Num 0)) channels)\<rparr>,
            filter (\<lambda>ch. \<not> np_gt (event ! ch) (Num 0)) channels,
            filter (\<lambda>k. np_lt (event ! k) (Num 0)) [0..<length event])
         else
           (self\<lparr>ea_automasked_hit := ea_automasked_hit self
                     + length (filter (\<lambda>ch. np_lt (event ! ch) (Num 0)) channels)\<rparr>,
            filter (\<lambda>ch. \<not> np_lt (event ! ch) (Num 0)) channels,
            filter (\<lambda>k. np_gt (event ! k) (Num 0)) [0..<length event]))
      else (self, channels, [0..<length event]))"
  unfolding automask_def Let_def
  by (simp only: delete_positions_filter [of channels "\<lambda>ch. np_gt (event ! ch) (Num 0)"]
      delete_positions_filter [of channels "\<lambda>ch. np_lt (event ! ch) (Num 0)"]
      length_filter_positions [of "\<lambda>ch. np_gt (event ! ch) (Num 0)" channels]
      length_filter_positions [of "\<lambda>ch. np_lt (event ! ch) (Num 0)" channels])

lemma automask_fields:
  assumes "automask self event channels = (self', channels', valid_ind)"
  shows "ea_numchan self' = ea_numchan self" and "ea_SN_cluster self' = ea_SN_cluster self"
    and "ea_max_clustersize self' = ea_max_clustersize self"
    and "set channels' \<subseteq> set channels"
  using assms unfolding automask_eq by (auto split: if_splits)

lemma accepted_cong:
  "ea_SN_cluster a = ea_SN_cluster b \<Longrightarrow> accepted a event = accepted b event"
  by (rule ext) (simp add: accepted_def)

lemma hit_channels_bound: "\<forall>ch\<in>set (hit_channels self SN). ch < length SN"
  by (simp add: hit_channels_def)

lemma distinct_concat_member:
  "distinct (concat xss) \<Longrightarrow> xs \<in> set xss \<Longrightarrow> distinct xs"
  by (induction xss) auto

text \<open>
  The result of \<^verbatim>\<open>clustering\<close> in terms of the candidates, with what the loop guarantees.
\<close>

lemma clustering_candidates:
  assumes len: "length SN = ea_numchan self"
    and am: "automask self event (hit_channels self SN) = (self', channels, valid_ind)"
  shows "clustering self event SN =
           (self', channels,
            filter (accepted self event)
              (candidates self' event SN valid_ind channels (init_frame self')),
            length (filter (accepted self event)
              (candidates self' event SN valid_ind channels (init_frame self'))),
            map length (filter (accepted self event)
              (candidates self' event SN valid_ind channels (init_frame self'))))"
    and "loop_spec self' event valid_ind channels
           (candidates self' event SN valid_ind channels (init_frame self'))
           (init_frame self')
           (fold (seed_step self' event SN valid_ind) channels (init_frame self'))"
proof -
  let ?f0 = "init_frame self'"
  let ?cands = "candidates self' event SN valid_ind channels ?f0"
  let ?g = "fold (seed_step self' event SN valid_ind) channels ?f0"
  have n: "ea_numchan self' = ea_numchan self"
    using am by (rule automask_fields(1))
  have acc: "accepted self' event = accepted self event"
    using automask_fields(2) [OF am] by (rule accepted_cong)
  have l0: "length (used_channels ?f0) = ea_numchan self'"
    by (simp add: init_frame_def)
  have "\<forall>ch\<in>set channels. ch < length SN"
    using automask_fields(4) [OF am] hit_channels_bound [of self SN] by blast
  then have b: "\<forall>ch\<in>set channels. ch < ea_numchan self'"
    using len n by simp
  show spec: "loop_spec self' event valid_ind channels ?cands ?f0 ?g"
    using l0 b by (rule seed_loop)
  then have "clusters_list ?g = clusters_list ?f0 @ filter (accepted self' event) ?cands"
    and "numclus ?g = numclus ?f0 + length (filter (accepted self' event) ?cands)"
    and "clustersize ?g = clustersize ?f0 @ map length (filter (accepted self' event) ?cands)"
    unfolding loop_spec_def by blast+
  then have r: "clusters_list ?g = filter (accepted self event) ?cands"
    "numclus ?g = length (filter (accepted self event) ?cands)"
    "clustersize ?g = map length (filter (accepted self event) ?cands)"
    unfolding acc by (simp_all add: init_frame_def)
  have "clustering self event SN = (self', channels, clusters_list ?g, numclus ?g, clustersize ?g)"
    unfolding clustering_def am Let_def by simp
  then show "clustering self event SN =
           (self', channels, filter (accepted self event) ?cands,
            length (filter (accepted self event) ?cands),
            map length (filter (accepted self event) ?cands))"
    unfolding r .
qed


lemma np_lt_asym: "np_lt x y \<Longrightarrow> \<not> np_lt y x"
  by (cases x; cases y) simp_all

text \<open>
  Claim C7. For signal and S/N vectors of \<open>numchan\<close> entries, the clusters that
  \<^verbatim>\<open>clustering\<close> returns are exactly the candidates with
  \<open>sqrt |sum of the signal over the members| > SN_cluster\<close>, in the order in which they
  are formed; their number and their sizes are what is counted and recorded. No channel
  belongs to two candidates, so a member of a rejected candidate neither seeds nor joins
  another one, and every member of every candidate, rejected or not, is marked used when
  the loop ends.
\<close>

theorem clustering_acceptance:
  assumes "length event = ea_numchan self" and "length SN = ea_numchan self"
    and "automask self event (hit_channels self SN) = (self', channels, valid_ind)"
  shows "clustering self event SN =
           (self', channels,
            filter (\<lambda>c. np_gt (np_sqrt (np_abs (np_sum (map (\<lambda>k. event ! k) c))))
                          (Num (ea_SN_cluster self)))
              (candidates self' event SN valid_ind channels (init_frame self')),
            length (filter (\<lambda>c. np_gt (np_sqrt (np_abs (np_sum (map (\<lambda>k. event ! k) c))))
                                  (Num (ea_SN_cluster self)))
              (candidates self' event SN valid_ind channels (init_frame self'))),
            map length (filter (\<lambda>c. np_gt (np_sqrt (np_abs (np_sum (map (\<lambda>k. event ! k) c))))
                                      (Num (ea_SN_cluster self)))
              (candidates self' event SN valid_ind channels (init_frame self'))))
     \<and> distinct (concat (candidates self' event SN valid_ind channels (init_frame self')))
     \<and> (\<forall>c\<in>set (concat (candidates self' event SN valid_ind channels (init_frame self'))).
           used_channels (fold (seed_step self' event SN valid_ind) channels (init_frame self'))
             ! c)"
proof -
  let ?cands = "candidates self' event SN valid_ind channels (init_frame self')"
  let ?g = "fold (seed_step self' event SN valid_ind) channels (init_frame self')"
  have acc: "accepted self event
      = (\<lambda>c. np_gt (np_sqrt (np_abs (np_sum (map (\<lambda>k. event ! k) c))))
                (Num (ea_SN_cluster self)))"
    by (rule ext) (simp add: accepted_def)
  have r: "clustering self event SN =
           (self', channels, filter (accepted self event) ?cands,
            length (filter (accepted self event) ?cands),
            map length (filter (accepted self event) ?cands))"
    using assms(2,3) by (rule clustering_candidates(1))
  have spec: "loop_spec self' event valid_ind channels ?cands (init_frame self') ?g"
    using assms(2,3) by (rule clustering_candidates(2))
  then have d: "distinct (concat ?cands)"
    and u: "\<forall>c\<in>set (concat ?cands). used_channels ?g ! c"
    unfolding loop_spec_def by blast+
  show ?thesis
    using r [unfolded acc] d u by (intro conjI)
qed

text \<open>
  Claim C9. With automasking on and the sensor type n-in-p, which rejects positive
  signals: the returned hit channels are the seed channels whose signal is not positive,
  the automasked total grows by the number of seed channels with a positive signal, and no
  member of a returned cluster has a positive signal.
\<close>

theorem automasking_rejects_positive:
  assumes "ea_masking self" and "ea_material self"
    and "length event = ea_numchan self" and "length SN = ea_numchan self"
    and "clustering self event SN = (self', channels, clusters, n, sizes)"
  shows "channels = filter (\<lambda>ch. \<not> np_gt (event ! ch) (Num 0)) (hit_channels self SN)
     \<and> ea_automasked_hit self' = ea_automasked_hit self
          + length (filter (\<lambda>ch. np_gt (event ! ch) (Num 0)) (hit_channels self SN))
     \<and> (\<forall>cl\<in>set clusters. \<forall>c\<in>set cl. \<not> np_gt (event ! c) (Num 0))"
proof -
  let ?hits = "hit_channels self SN"
  let ?self = "self\<lparr>ea_automasked_hit := ea_automasked_hit self
                     + length (filter (\<lambda>ch. np_gt (event ! ch) (Num 0)) ?hits)\<rparr>"
  let ?channels = "filter (\<lambda>ch. \<not> np_gt (event ! ch) (Num 0)) ?hits"
  let ?valid = "filter (\<lambda>k. np_lt (event ! k) (Num 0)) [0..<length event]"
  let ?cands = "candidates ?self event SN ?valid ?channels (init_frame ?self)"
  have am: "automask self event ?hits = (?self, ?channels, ?valid)"
    unfolding automask_eq using assms(1,2) by simp
  have r: "clustering self event SN =
           (?self, ?channels, filter (accepted self event) ?cands,
            length (filter (accepted self event) ?cands),
            map length (filter (accepted self event) ?cands))"
    using assms(4) am by (rule clustering_candidates(1))
  have spec: "loop_spec ?self event ?valid ?channels ?cands (init_frame ?self)
                (fold (seed_step ?self event SN ?valid) ?channels (init_frame ?self))"
    using assms(4) am by (rule clustering_candidates(2))
  from r assms(5) have eq: "self' = ?self" "channels = ?channels"
    "clusters = filter (accepted self event) ?cands"
    by simp_all
  have mem: "\<forall>cl\<in>set ?cands. hd cl \<in> set ?channels
                \<and> (\<forall>c\<in>set cl. c = hd cl \<or> c \<in> set ?valid)"
    using spec unfolding loop_spec_def by blast
  have 3: "\<forall>cl\<in>set clusters. \<forall>c\<in>set cl. \<not> np_gt (event ! c) (Num 0)"
  proof (intro ballI)
    fix cl c assume cl: "cl \<in> set clusters" and c: "c \<in> set cl"
    from cl eq(3) have "cl \<in> set ?cands" by simp
    with mem c have "hd cl \<in> set ?channels" and "c = hd cl \<or> c \<in> set ?valid"
      by blast+
    then consider "c \<in> set ?channels" | "c \<in> set ?valid" by blast
    then show "\<not> np_gt (event ! c) (Num 0)"
    proof cases
      case 1
      then show ?thesis by simp
    next
      case 2
      then have "np_lt (event ! c) (Num 0)" by simp
      then show ?thesis unfolding np_gt_def by (rule np_lt_asym)
    qed
  qed
  have 2: "ea_automasked_hit self' = ea_automasked_hit self
          + length (filter (\<lambda>ch. np_gt (event ! ch) (Num 0)) ?hits)"
    unfolding eq(1) by simp
  show ?thesis
    using eq(2) 2 3 by (intro conjI)
qed


lemma less_sqrt_iff: "0 \<le> c \<Longrightarrow> (c < sqrt x) = (c\<^sup>2 < x)"
proof -
  assume c: "0 \<le> c"
  have "(c < sqrt x) = (sqrt (c\<^sup>2) < sqrt x)"
    using c by simp
  also have "\<dots> = (c\<^sup>2 < x)"
    by (rule real_sqrt_less_iff)
  finally show ?thesis .
qed

lemmas clustering_simps = clustering_def automask_def hit_channels_def init_frame_def
  seed_step_def grow_def neighbour_step_def right_step_def left_step_def accepted_def
  np_gt_def delete_positions_def Let_def upt_conv_Cons example_analysis_def less_sqrt_iff

lemma clustering_example_rejected:
  "clustering (example_analysis 6 5 False)
     [Num 0, Num 0, Num (- 10), Num 10, Num 0, Num 0]
     [Num 0, Num 0, Num (- 5), Num 5, Num 0, Num 0]
   = (example_analysis 6 5 False, [2, 3], [], 0, [])"
  by (simp add: clustering_simps)

lemma candidates_example_rejected:
  "candidates (example_analysis 6 5 False)
     [Num 0, Num 0, Num (- 10), Num 10, Num 0, Num 0]
     [Num 0, Num 0, Num (- 5), Num 5, Num 0, Num 0]
     [0, 1, 2, 3, 4, 5] [2, 3] (init_frame (example_analysis 6 5 False))
   = [[2, 3]]"
  by (simp add: clustering_simps)

lemma automask_example_rejected:
  "automask (example_analysis 6 5 False) [Num 0, Num 0, Num (- 10), Num 10, Num 0, Num 0]
     (hit_channels (example_analysis 6 5 False) [Num 0, Num 0, Num (- 5), Num 5, Num 0, Num 0])
   = (example_analysis 6 5 False, [2, 3], [0, 1, 2, 3, 4, 5])"
  by (simp add: clustering_simps)

lemma clustering_example_masked:
  "clustering (example_analysis 5 5 True)
     [Num (- 49), Num 20, Num (- 64), Num (- 36), Num 7]
     [Num (- 5), Num 2, Num (- 6), Num (- 5), Num (7 / 10)]
   = ((example_analysis 5 5 True)\<lparr>ea_automasked_hit := 1\<rparr>, [0, 2, 3], [[0], [2, 3]], 2, [1, 2])"
  by (simp add: clustering_simps)

lemma clustering_example_wide:
  "clustering (example_analysis 7 4 False)
     [Num (- 20), Num (- 20), Num (- 20), Num (- 20), Num (- 20), Num (- 20), Num (- 20)]
     [Num 0, Num (7 / 10), Num (7 / 10), Num 5, Num (7 / 10), Num (7 / 10), Num 0]
   = (example_analysis 7 4 False, [3], [[3, 4, 2, 5, 1]], 1, [5])"
  by (simp add: clustering_simps)


text \<open>The calls that reach the bound on the cluster size, for every \<open>max_clustersize\<close>.\<close>

lemma wide_SN_nth:
  "c < 2 * h + 3 \<Longrightarrow> wide_SN h ! c = (if c = h + 1 then Num 5 else Num (7 / 10))"
  by (simp add: wide_SN_def nth_list_update)

lemma wide_event_nth:
  "c < 2 * h + 3 \<Longrightarrow> wide_event h ! c = (if c = h + 1 then Num (- 100) else Num 0)"
  by (simp add: wide_event_def nth_list_update)

lemma wide_lengths: "length (wide_SN h) = 2 * h + 3" "length (wide_event h) = 2 * h + 3"
  by (simp_all add: wide_SN_def wide_event_def)

lemma wide_cluster_Suc:
  "wide_cluster ch (Suc k) = wide_cluster ch k @ [ch + Suc k, ch - Suc k]"
  by (simp add: wide_cluster_def)

lemma wide_cluster_length: "length (wide_cluster ch k) = 2 * k + 1"
  by (induction k) (simp_all add: wide_cluster_Suc, simp add: wide_cluster_def)

lemma wide_cluster_range:
  "c \<in> set (wide_cluster ch k) \<Longrightarrow> ch - k \<le> c \<and> c \<le> ch + k"
proof (induction k)
  case 0
  then show ?case by (simp add: wide_cluster_def)
next
  case (Suc k)
  then show ?case by (auto simp: wide_cluster_Suc)
qed

lemma filter_eq_upt: "a < n \<Longrightarrow> filter (\<lambda>x. x = a) [0..<n] = [a]"
proof (induction n)
  case 0
  then show ?case by simp
next
  case (Suc n)
  show ?case
  proof (cases "a = n")
    case True
    then show ?thesis by simp
  next
    case False
    with Suc show ?thesis by simp
  qed
qed

lemma hit_channels_wide:
  "hit_channels (example_analysis n m b) (wide_SN h) = [h + 1]"
proof -
  have "filter (\<lambda>ch. np_gt (np_abs (wide_SN h ! ch)) (Num 1)) [0..<2 * h + 3]
        = filter (\<lambda>ch. ch = h + 1) [0..<2 * h + 3]"
    by (rule filter_cong) (auto simp: wide_SN_nth np_gt_def)
  also have "\<dots> = [h + 1]"
    by (rule filter_eq_upt) simp
  finally show ?thesis
    by (simp add: hit_channels_def wide_lengths example_analysis_def)
qed

lemma wide_neighbour_step:
  assumes n: "ea_numchan self = 2 * h + 3" and cut: "ea_SN_cut self = 1"
    and ratio: "ea_SN_ratio self = 1 / 2"
    and inv: "cluster_inv (2 * h + 3) [0..<2 * h + 3] (replicate (2 * h + 3) False) (h + 1) g"
    and cl: "cluster g = wide_cluster (h + 1) k"
    and stop: "\<not> right_stop g" "\<not> left_stop g"
    and k: "k < h"
  shows "cluster (neighbour_step self (wide_SN h) [0..<2 * h + 3] (h + 1) (Suc k) g)
           = wide_cluster (h + 1) (Suc k)
       \<and> \<not> right_stop (neighbour_step self (wide_SN h) [0..<2 * h + 3] (h + 1) (Suc k) g)
       \<and> \<not> left_stop (neighbour_step self (wide_SN h) [0..<2 * h + 3] (h + 1) (Suc k) g)"
proof -
  let ?n = "2 * h + 3"
  let ?r = "h + 1 + Suc k"
  let ?l = "h + 1 - Suc k"
  from inv have len: "length (used_channels g) = ?n"
    and used: "\<forall>c<?n. used_channels g ! c
                 = (replicate ?n False ! c \<or> c \<in> set (cluster g))"
    unfolding cluster_inv_def by blast+
  have rn: "?r < ?n" and ln: "?l < ?n" and lr: "?l \<noteq> ?r"
    and rs: "?r \<noteq> h + 1" and ls: "?l \<noteq> h + 1"
    using k by arith+
  have r_out: "?r \<notin> set (cluster g)"
  proof
    assume "?r \<in> set (cluster g)"
    then have "?r \<le> h + 1 + k"
      unfolding cl by (auto dest: wide_cluster_range)
    then show False by arith
  qed
  have l_out: "?l \<notin> set (cluster g)"
  proof
    assume "?l \<in> set (cluster g)"
    then have "h + 1 - k \<le> ?l"
      unfolding cl by (auto dest: wide_cluster_range)
    with k show False by arith
  qed
  have ur: "\<not> used_channels g ! ?r"
    using used rn r_out by simp
  have ul: "\<not> used_channels g ! ?l"
    using used ln l_out by simp
  have snr: "np_gt (np_abs (wide_SN h ! ?r)) (Num (ea_SN_cut self * ea_SN_ratio self))"
    using rn rs by (simp add: wide_SN_nth cut ratio np_gt_def)
  have snl: "np_gt (np_abs (wide_SN h ! ?l)) (Num (ea_SN_cut self * ea_SN_ratio self))"
    using ln ls by (simp add: wide_SN_nth cut ratio np_gt_def)
  have right: "right_step self (wide_SN h) [0..<?n] (h + 1) (Suc k) g = add_channel ?r g"
    unfolding right_step_add_channel using snr ur rn stop by simp
  have ul': "\<not> used_channels (add_channel ?r g) ! ?l"
    using ul lr by (simp add: add_channel_def)
  have left: "left_step self (wide_SN h) [0..<?n] (h + 1) (Suc k) (add_channel ?r g)
                = add_channel ?l (add_channel ?r g)"
    unfolding left_step_add_channel using snl ul' ln stop by (simp add: add_channel_def)
  have "Suc k < h + 1 \<and> h + 1 + Suc k < ea_numchan self"
    using k n by arith
  then have step: "neighbour_step self (wide_SN h) [0..<?n] (h + 1) (Suc k) g
                = add_channel ?l (add_channel ?r g)"
    unfolding neighbour_step_def using right left by simp
  show ?thesis
    unfolding step using cl stop by (simp add: add_channel_def wide_cluster_Suc)
qed

lemma wide_fold:
  assumes n: "ea_numchan self = 2 * h + 3" and cut: "ea_SN_cut self = 1"
    and ratio: "ea_SN_ratio self = 1 / 2"
    and inv: "cluster_inv (2 * h + 3) [0..<2 * h + 3] (replicate (2 * h + 3) False) (h + 1) f"
    and cl: "cluster f = [h + 1]"
    and stop: "\<not> right_stop f" "\<not> left_stop f"
  shows "k \<le> h \<Longrightarrow>
         cluster (fold (neighbour_step self (wide_SN h) [0..<2 * h + 3] (h + 1)) [1..<k + 1] f)
           = wide_cluster (h + 1) k
       \<and> \<not> right_stop (fold (neighbour_step self (wide_SN h) [0..<2 * h + 3] (h + 1))
                          [1..<k + 1] f)
       \<and> \<not> left_stop (fold (neighbour_step self (wide_SN h) [0..<2 * h + 3] (h + 1))
                         [1..<k + 1] f)"
proof (induction k)
  case 0
  show ?case using cl stop by (simp add: wide_cluster_def)
next
  case (Suc k)
  let ?g = "fold (neighbour_step self (wide_SN h) [0..<2 * h + 3] (h + 1)) [1..<k + 1] f"
  from Suc have IH: "cluster ?g = wide_cluster (h + 1) k" "\<not> right_stop ?g" "\<not> left_stop ?g"
    and k: "k < h"
    by simp_all
  have "cluster_inv (ea_numchan self) [0..<2 * h + 3] (replicate (2 * h + 3) False) (h + 1) ?g"
    using inv unfolding n [symmetric] by (rule cluster_inv_fold)
  then have inv': "cluster_inv (2 * h + 3) [0..<2 * h + 3] (replicate (2 * h + 3) False)
                     (h + 1) ?g"
    unfolding n .
  have eq: "fold (neighbour_step self (wide_SN h) [0..<2 * h + 3] (h + 1)) [1..<Suc k + 1] f
          = neighbour_step self (wide_SN h) [0..<2 * h + 3] (h + 1) (Suc k) ?g"
    by simp
  show ?case
    unfolding eq using n cut ratio inv' IH k by (rule wide_neighbour_step)
qed

lemma grow_wide:
  assumes n: "ea_numchan self = 2 * h + 3" and cut: "ea_SN_cut self = 1"
    and ratio: "ea_SN_ratio self = 1 / 2" and m: "ea_max_clustersize self div 2 = h"
  shows "cluster (grow self (wide_SN h) [0..<2 * h + 3] (h + 1) (init_frame self))
           = wide_cluster (h + 1) h"
proof -
  let ?f1 = "(init_frame self)\<lparr>used_channels := (used_channels (init_frame self))[h + 1 := True],
               cluster := [h + 1], csize := 1, right_stop := False, left_stop := False\<rparr>"
  have "cluster_inv (2 * h + 3) [0..<2 * h + 3] (replicate (2 * h + 3) False) (h + 1) ?f1"
    unfolding cluster_inv_def by (auto simp: init_frame_def n nth_list_update)
  moreover have "cluster ?f1 = [h + 1]" "\<not> right_stop ?f1" "\<not> left_stop ?f1"
    by simp_all
  ultimately have
    "cluster (fold (neighbour_step self (wide_SN h) [0..<2 * h + 3] (h + 1)) [1..<h + 1] ?f1)
       = wide_cluster (h + 1) h"
    using wide_fold [OF n cut ratio, of ?f1 h] by blast
  then show ?thesis
    unfolding grow_def Let_def m .
qed

lemma np_sum_wide:
  "distinct cl \<Longrightarrow> \<forall>c\<in>set cl. c < 2 * h + 3 \<Longrightarrow>
   np_sum (map (\<lambda>k. wide_event h ! k) cl)
     = (if h + 1 \<in> set cl then Num (- 100) else Num 0)"
proof (induction cl)
  case Nil
  show ?case by simp
next
  case (Cons c cl)
  then show ?case
    by (auto simp: wide_event_nth)
qed

lemma wide_cluster_distinct: "k \<le> ch \<Longrightarrow> distinct (wide_cluster ch k)"
proof (induction k)
  case 0
  show ?case by (simp add: wide_cluster_def)
next
  case (Suc k)
  have "ch + Suc k \<notin> set (wide_cluster ch k)" "ch - Suc k \<notin> set (wide_cluster ch k)"
    using Suc.prems by (auto dest: wide_cluster_range)
  with Suc show ?case
    by (simp add: wide_cluster_Suc)
qed

lemma accepted_wide:
  assumes "ea_SN_cluster self = 6"
  shows "accepted self (wide_event h) (wide_cluster (h + 1) h)"
proof -
  have "\<forall>c\<in>set (wide_cluster (h + 1) h). c < 2 * h + 3"
    by (auto dest: wide_cluster_range)
  moreover have "distinct (wide_cluster (h + 1) h)"
    by (rule wide_cluster_distinct) simp
  ultimately have "np_sum (map (\<lambda>k. wide_event h ! k) (wide_cluster (h + 1) h)) = Num (- 100)"
    by (simp add: np_sum_wide) (simp add: wide_cluster_def)
  then show ?thesis
    by (simp add: accepted_def assms np_gt_def less_sqrt_iff)
qed

lemma clustering_wide:
  "clustering (example_analysis (2 * (m div 2) + 3) m False)
     (wide_event (m div 2)) (wide_SN (m div 2))
   = (example_analysis (2 * (m div 2) + 3) m False, [m div 2 + 1],
      [wide_cluster (m div 2 + 1) (m div 2)], 1, [2 * (m div 2) + 1])"
proof -
  define h where "h = m div 2"
  define self where "self = example_analysis (2 * h + 3) m False"
  define g where "g = grow self (wide_SN h) [0..<2 * h + 3] (h + 1) (init_frame self)"
  have fields: "ea_numchan self = 2 * h + 3" "ea_SN_cut self = 1" "ea_SN_ratio self = 1 / 2"
    "ea_max_clustersize self div 2 = h" "ea_SN_cluster self = 6" "\<not> ea_masking self"
    by (simp_all add: self_def example_analysis_def h_def)
  have unused: "\<not> used_channels (init_frame self) ! (h + 1)"
    by (simp add: init_frame_def fields)
  have cl: "cluster g = wide_cluster (h + 1) h"
    unfolding g_def using fields(1-4) by (rule grow_wide)
  have acc: "accepted self (wide_event h) (cluster g)"
    unfolding cl using fields(5) by (rule accepted_wide)
  have "cluster_inv (ea_numchan self) [0..<2 * h + 3] (used_channels (init_frame self))
          (h + 1) g"
    unfolding g_def by (rule cluster_inv_grow) (simp_all add: init_frame_def fields)
  then have "csize g = length (cluster g)"
    unfolding cluster_inv_def by blast
  then have sz: "csize g = 2 * h + 1"
    by (simp add: cl wide_cluster_length)
  have out: "numclus g = 0" "clusters_list g = []" "clustersize g = []"
    unfolding g_def by (simp_all add: grow_outputs init_frame_def)
  have step: "seed_step self (wide_event h) (wide_SN h) [0..<2 * h + 3] (h + 1) (init_frame self)
      = g\<lparr>numclus := numclus g + 1, clusters_list := clusters_list g @ [cluster g],
           clustersize := clustersize g @ [csize g]\<rparr>"
    unfolding seed_step_def Let_def g_def [symmetric] using unused acc by simp
  have fo: "fold (seed_step self (wide_event h) (wide_SN h) [0..<2 * h + 3]) [h + 1]
              (init_frame self)
      = g\<lparr>numclus := numclus g + 1, clusters_list := clusters_list g @ [cluster g],
           clustersize := clustersize g @ [csize g]\<rparr>"
    by (simp only: fold_simps step)
  have am: "automask self (wide_event h) [h + 1] = (self, [h + 1], [0..<2 * h + 3])"
    by (simp add: automask_def fields wide_lengths)
  have hit: "hit_channels self (wide_SN h) = [h + 1]"
    unfolding self_def by (rule hit_channels_wide)
  have "clustering self (wide_event h) (wide_SN h)
          = (self, [h + 1], [wide_cluster (h + 1) h], 1, [2 * h + 1])"
    unfolding clustering_def hit am prod.case Let_def fo by (simp add: out sz cl)
  then show ?thesis
    unfolding self_def h_def .
qed


text \<open>
  The theorem of claim C7 at an event on six channels where the candidate of seed 2 takes
  channel 3 and is rejected (the signals of its members add up to 0): channel 3, itself a
  hit channel, stays used and seeds nothing, and no cluster is returned.
\<close>

theorem clustering_acceptance_witness:
  "clustering (example_analysis 6 5 False)
     [Num 0, Num 0, Num (- 10), Num 10, Num 0, Num 0]
     [Num 0, Num 0, Num (- 5), Num 5, Num 0, Num 0]
   = (example_analysis 6 5 False, [2, 3], [], 0, [])
   \<and> candidates (example_analysis 6 5 False)
       [Num 0, Num 0, Num (- 10), Num 10, Num 0, Num 0]
       [Num 0, Num 0, Num (- 5), Num 5, Num 0, Num 0]
       [0, 1, 2, 3, 4, 5] [2, 3] (init_frame (example_analysis 6 5 False))
     = [[2, 3]]
   \<and> distinct (concat [[2, 3 :: nat]])"
proof -
  let ?self = "example_analysis 6 5 False"
  let ?event = "[Num 0, Num 0, Num (- 10), Num 10, Num 0, Num 0]"
  let ?SN = "[Num 0, Num 0, Num (- 5), Num 5, Num 0, Num 0]"
  have h1: "length ?event = ea_numchan ?self"
    by (simp add: example_analysis_def)
  have h2: "length ?SN = ea_numchan ?self"
    by (simp add: example_analysis_def)
  note t = clustering_acceptance [OF h1 h2 automask_example_rejected]
  from t have "distinct (concat (candidates ?self ?event ?SN [0, 1, 2, 3, 4, 5] [2, 3]
                                   (init_frame ?self)))"
    by (rule conjunct1 [OF conjunct2])
  then have "distinct (concat [[2, 3 :: nat]])"
    unfolding candidates_example_rejected .
  with clustering_example_rejected candidates_example_rejected show ?thesis
    by (intro conjI)
qed

theorem automasking_rejects_positive_witness:
  "clustering (example_analysis 5 5 True)
     [Num (- 49), Num 20, Num (- 64), Num (- 36), Num 7]
     [Num (- 5), Num 2, Num (- 6), Num (- 5), Num (7 / 10)]
   = ((example_analysis 5 5 True)\<lparr>ea_automasked_hit := 1\<rparr>, [0, 2, 3], [[0], [2, 3]], 2, [1, 2])
   \<and> [0, 2, 3] = filter (\<lambda>ch. \<not> np_gt ([Num (- 49), Num 20, Num (- 64), Num (- 36), Num 7] ! ch)
                                  (Num 0))
                    (hit_channels (example_analysis 5 5 True)
                       [Num (- 5), Num 2, Num (- 6), Num (- 5), Num (7 / 10)])
   \<and> ea_automasked_hit ((example_analysis 5 5 True)\<lparr>ea_automasked_hit := 1\<rparr>)
       = ea_automasked_hit (example_analysis 5 5 True)
         + length (filter (\<lambda>ch. np_gt ([Num (- 49), Num 20, Num (- 64), Num (- 36), Num 7] ! ch)
                                  (Num 0))
                    (hit_channels (example_analysis 5 5 True)
                       [Num (- 5), Num 2, Num (- 6), Num (- 5), Num (7 / 10)]))"
proof -
  let ?self = "example_analysis 5 5 True"
  let ?event = "[Num (- 49), Num 20, Num (- 64), Num (- 36), Num 7]"
  let ?SN = "[Num (- 5), Num 2, Num (- 6), Num (- 5), Num (7 / 10)]"
  have h1: "ea_masking ?self" and h2: "ea_material ?self"
    by (simp_all add: example_analysis_def)
  have h3: "length ?event = ea_numchan ?self" and h4: "length ?SN = ea_numchan ?self"
    by (simp_all add: example_analysis_def)
  from automasking_rejects_positive [OF h1 h2 h3 h4 clustering_example_masked]
    clustering_example_masked
  show ?thesis
    by (intro conjI) blast+
qed

text \<open>
  Claim C10. For signal and S/N vectors of \<open>numchan\<close> entries, every returned cluster lists
  no channel twice and has at least one and at most \<open>2 * (max_clustersize div 2) + 1\<close>
  members, and the recorded sizes and number are those of the returned clusters. The bound
  is reached for every value \<open>m\<close> of \<open>max_clustersize\<close>: there is a call with that value
  which returns a cluster of \<open>2 * (m div 2) + 1\<close> channels. So for every even value \<open>2 * h\<close>
  there is a call that returns a cluster of \<open>max_clustersize + 1\<close> channels.
\<close>

theorem cluster_size_bound:
  assumes "length event = ea_numchan self" and "length SN = ea_numchan self"
    and "clustering self event SN = (self', channels, clusters, n, sizes)"
  shows "(\<forall>cl\<in>set clusters. distinct cl \<and> 1 \<le> length cl
            \<and> length cl \<le> 2 * (ea_max_clustersize self div 2) + 1)
     \<and> sizes = map length clusters \<and> n = length clusters
     \<and> (\<forall>m. \<exists>self0 event0 SN0 cl.
           ea_max_clustersize self0 = m \<and> length event0 = ea_numchan self0
         \<and> length SN0 = ea_numchan self0
         \<and> cl \<in> set (fst (snd (snd (clustering self0 event0 SN0))))
         \<and> length cl = 2 * (m div 2) + 1)
     \<and> (\<forall>h. \<exists>self0 event0 SN0 cl.
           ea_max_clustersize self0 = 2 * h \<and> length event0 = ea_numchan self0
         \<and> length SN0 = ea_numchan self0
         \<and> cl \<in> set (fst (snd (snd (clustering self0 event0 SN0))))
         \<and> length cl = ea_max_clustersize self0 + 1)"
proof -
  obtain self1 channels1 valid_ind where
    am: "automask self event (hit_channels self SN) = (self1, channels1, valid_ind)"
    by (cases "automask self event (hit_channels self SN)") blast
  let ?cands = "candidates self1 event SN valid_ind channels1 (init_frame self1)"
  have r: "clustering self event SN =
           (self1, channels1, filter (accepted self event) ?cands,
            length (filter (accepted self event) ?cands),
            map length (filter (accepted self event) ?cands))"
    using assms(2) am by (rule clustering_candidates(1))
  have spec: "loop_spec self1 event valid_ind channels1 ?cands (init_frame self1)
                (fold (seed_step self1 event SN valid_ind) channels1 (init_frame self1))"
    using assms(2) am by (rule clustering_candidates(2))
  from r assms(3) have eq: "clusters = filter (accepted self event) ?cands"
    "n = length clusters" "sizes = map length clusters"
    by simp_all
  have m: "ea_max_clustersize self1 = ea_max_clustersize self"
    using am by (rule automask_fields(3))
  from spec have d: "distinct (concat ?cands)"
    and b: "\<forall>cl\<in>set ?cands. cl \<noteq> []
              \<and> length cl \<le> 2 * (ea_max_clustersize self1 div 2) + 1"
    unfolding loop_spec_def by blast+
  have 1: "\<forall>cl\<in>set clusters. distinct cl \<and> 1 \<le> length cl
            \<and> length cl \<le> 2 * (ea_max_clustersize self div 2) + 1"
  proof
    fix cl assume "cl \<in> set clusters"
    then have c: "cl \<in> set ?cands"
      using eq(1) by simp
    then have "distinct cl"
      using d by (rule distinct_concat_member [rotated])
    moreover from c b have "cl \<noteq> []" "length cl \<le> 2 * (ea_max_clustersize self1 div 2) + 1"
      by blast+
    moreover from \<open>cl \<noteq> []\<close> have "1 \<le> length cl"
      by (cases cl) simp_all
    ultimately show "distinct cl \<and> 1 \<le> length cl
            \<and> length cl \<le> 2 * (ea_max_clustersize self div 2) + 1"
      using m by simp
  qed
  have 2: "\<exists>self0 event0 SN0 cl.
           ea_max_clustersize self0 = m \<and> length event0 = ea_numchan self0
         \<and> length SN0 = ea_numchan self0
         \<and> cl \<in> set (fst (snd (snd (clustering self0 event0 SN0))))
         \<and> length cl = 2 * (m div 2) + 1" for m
  proof (intro exI conjI)
    show "ea_max_clustersize (example_analysis (2 * (m div 2) + 3) m False) = m"
      by (simp add: example_analysis_def)
    show "length (wide_event (m div 2))
            = ea_numchan (example_analysis (2 * (m div 2) + 3) m False)"
      by (simp add: example_analysis_def wide_lengths)
    show "length (wide_SN (m div 2))
            = ea_numchan (example_analysis (2 * (m div 2) + 3) m False)"
      by (simp add: example_analysis_def wide_lengths)
    show "wide_cluster (m div 2 + 1) (m div 2)
            \<in> set (fst (snd (snd (clustering (example_analysis (2 * (m div 2) + 3) m False)
                                      (wide_event (m div 2)) (wide_SN (m div 2))))))"
      unfolding clustering_wide by simp
    show "length (wide_cluster (m div 2 + 1) (m div 2)) = 2 * (m div 2) + 1"
      by (rule wide_cluster_length)
  qed
  have 3: "\<exists>self0 event0 SN0 cl.
           ea_max_clustersize self0 = 2 * h \<and> length event0 = ea_numchan self0
         \<and> length SN0 = ea_numchan self0
         \<and> cl \<in> set (fst (snd (snd (clustering self0 event0 SN0))))
         \<and> length cl = ea_max_clustersize self0 + 1" for h
  proof -
    from 2 [of "2 * h"] obtain self0 event0 SN0 cl where
      "ea_max_clustersize self0 = 2 * h" "length event0 = ea_numchan self0"
      "length SN0 = ea_numchan self0"
      "cl \<in> set (fst (snd (snd (clustering self0 event0 SN0))))"
      "length cl = 2 * (2 * h div 2) + 1"
      by blast
    then show ?thesis
      by (intro exI [of _ self0] exI [of _ event0] exI [of _ SN0] exI [of _ cl]) simp
  qed
  show ?thesis
    using 1 eq(3) eq(2) 2 3 by (intro conjI allI)
qed

text \<open>The theorem at the call that returns a cluster of five channels for \<open>max_clustersize\<close> 4.\<close>

theorem cluster_size_bound_witness:
  "clustering (example_analysis 7 4 False)
     [Num (- 20), Num (- 20), Num (- 20), Num (- 20), Num (- 20), Num (- 20), Num (- 20)]
     [Num 0, Num (7 / 10), Num (7 / 10), Num 5, Num (7 / 10), Num (7 / 10), Num 0]
   = (example_analysis 7 4 False, [3], [[3, 4, 2, 5, 1]], 1, [5])
   \<and> distinct [3, 4, 2, 5, 1 :: nat]
   \<and> length [3, 4, 2, 5, 1 :: nat] \<le> 2 * (ea_max_clustersize (example_analysis 7 4 False) div 2) + 1"
proof -
  let ?self = "example_analysis 7 4 False"
  have h1: "length [Num (- 20), Num (- 20), Num (- 20), Num (- 20), Num (- 20), Num (- 20),
                    Num (- 20)] = ea_numchan ?self"
    by (simp add: example_analysis_def)
  have h2: "length [Num 0, Num (7 / 10), Num (7 / 10), Num 5, Num (7 / 10), Num (7 / 10), Num 0]
              = ea_numchan ?self"
    by (simp add: example_analysis_def)
  from cluster_size_bound [OF h1 h2 clustering_example_wide]
  have "\<forall>cl\<in>set [[3, 4, 2, 5, 1 :: nat]]. distinct cl \<and> 1 \<le> length cl
            \<and> length cl \<le> 2 * (ea_max_clustersize ?self div 2) + 1"
    by (rule conjunct1)
  then have "distinct [3, 4, 2, 5, 1 :: nat]
     \<and> length [3, 4, 2, 5, 1 :: nat] \<le> 2 * (ea_max_clustersize ?self div 2) + 1"
    by simp
  with clustering_example_wide show ?thesis
    by (intro conjI) blast+
qed


section \<open>do\_analysis\<close>

lemma process_event_example:
  "process_event [Num 101, Num 1] [Num 0, Num 0] (Num 0) (Num 1) [Num 1, Num 1] 2
     = Inr ([Num 100, Num 0], [Num 100, Num 0], Num 1, Num 0)"
  "process_event [Num 1, Num 101] [Num 0, Num 0] (Num 0) (Num 1) [Num 1, Num 1] 2
     = Inr ([Num 0, Num 100], [Num 0, Num 100], Num 1, Num 0)"
  by (simp_all add: process_event_def np_elementwise_def np_mean_def np_std_def np_sub_def)

lemma clustering_example_batch:
  "clustering (example_analysis 2 5 False) [Num 100, Num 0] [Num 100, Num 0]
     = (example_analysis 2 5 False, [0], [[0]], 1, [1])"
  "clustering (example_analysis 2 5 False) [Num 0, Num 100] [Num 0, Num 100]
     = (example_analysis 2 5 False, [1], [[1]], 1, [1])"
  by (simp_all add: clustering_simps)

lemma clustering_example_batch_events:
  "clustering ((example_analysis 2 5 False)\<lparr>ea_events := k\<rparr>) [Num 100, Num 0] [Num 100, Num 0]
     = ((example_analysis 2 5 False)\<lparr>ea_events := k\<rparr>, [0], [[0]], 1, [1])"
  "clustering ((example_analysis 2 5 False)\<lparr>ea_events := k\<rparr>) [Num 0, Num 100] [Num 0, Num 100]
     = ((example_analysis 2 5 False)\<lparr>ea_events := k\<rparr>, [1], [[1]], 1, [1])"
  by (simp_all add: clustering_simps)

lemma example_analysis_fields:
  "ea_numchan (example_analysis n m b) = n"
  "ea_pedestal (example_analysis n m b) = replicate n (Num 0)"
  "ea_noise (example_analysis n m b) = replicate n (Num 1)"
  "ea_tmin (example_analysis n m b) = 0"
  "ea_CMN (example_analysis n m b) = [Num 0]"
  "ea_CMsig (example_analysis n m b) = [Num 1]"
  "ea_events (example_analysis n m b) = 0"
  by (simp_all add: example_analysis_def)

lemma replicate_2: "replicate 2 x = [x, x]"
  by (simp add: numeral_2_eq_2)

lemmas do_analysis_example_simps = do_analysis_def upt_conv_Cons example_analysis_fields
  replicate_2 np_mean_def process_event_example clustering_example_batch_events Let_def

lemma do_analysis_example_skip:
  "do_analysis (example_analysis 2 5 False) (\<lambda>a. []) 0
     [[Num 101, Num 1], [Num 1, Num 101]] [0, 5]
   = Inr ((example_analysis 2 5 False)\<lparr>ea_events := 1\<rparr>, (\<lambda>a. [])(0 := [1, 0]),
          [\<lparr>r_signal = [Num 100, Num 0], r_SN = [Num 100, Num 0], r_CMN = Num 1,
            r_CMsig = Num 0, r_hitmap = 0, r_channels_hit = [0], r_clusters = [[0]],
            r_numclus = 1, r_clustersize = [1]\<rparr>])"
  by (simp add: do_analysis_example_simps)

lemma do_analysis_example_two:
  "do_analysis (example_analysis 2 5 False) (\<lambda>a. []) 0
     [[Num 101, Num 1], [Num 1, Num 101]] [5, 5]
   = Inr ((example_analysis 2 5 False)\<lparr>ea_events := 2\<rparr>, (\<lambda>a. [])(0 := [1, 1]),
          [\<lparr>r_signal = [Num 100, Num 0], r_SN = [Num 100, Num 0], r_CMN = Num 1,
            r_CMsig = Num 0, r_hitmap = 0, r_channels_hit = [0], r_clusters = [[0]],
            r_numclus = 1, r_clustersize = [1]\<rparr>,
           \<lparr>r_signal = [Num 0, Num 100], r_SN = [Num 0, Num 100], r_CMN = Num 1,
            r_CMsig = Num 0, r_hitmap = 0, r_channels_hit = [1], r_clusters = [[1]],
            r_numclus = 1, r_clustersize = [1]\<rparr>])"
  by (simp add: do_analysis_example_simps)

lemma do_analysis_example_one:
  "do_analysis (example_analysis 2 5 False) (\<lambda>a. []) 0 [[Num 101, Num 1]] [5]
   = Inr ((example_analysis 2 5 False)\<lparr>ea_events := 1\<rparr>, (\<lambda>a. [])(0 := [1, 0]),
          [\<lparr>r_signal = [Num 100, Num 0], r_SN = [Num 100, Num 0], r_CMN = Num 1,
            r_CMsig = Num 0, r_hitmap = 0, r_channels_hit = [0], r_clusters = [[0]],
            r_numclus = 1, r_clustersize = [1]\<rparr>])"
  by (simp add: do_analysis_example_simps)


text \<open>
  What holds of every run: one result per admitted event, and every result refers to the
  one hit map of the run.
\<close>

lemma do_analysis_loop_results:
  "do_analysis_loop events meanCMN meanCMsig hitmap idxs (self, heap, prodata)
     = Inr (self', heap', prodata') \<Longrightarrow>
   length prodata' = length prodata + length idxs
   \<and> (\<forall>r\<in>set prodata'. r \<in> set prodata \<or> r_hitmap r = hitmap)"
proof (induction idxs arbitrary: self heap prodata)
  case Nil
  then show ?case by simp
next
  case (Cons event rest)
  from Cons.prems obtain signal SN CMN CMsig where
    pe: "process_event (events ! event) (ea_pedestal self) meanCMN meanCMsig (ea_noise self)
           (ea_numchan self) = Inr (signal, SN, CMN, CMsig)"
    and ev: "\<not> length events \<le> event"
    by (auto split: if_splits sum.splits)
  obtain self1 channels_hit clusters n sizes where
    cl: "clustering self signal SN = (self1, channels_hit, clusters, n, sizes)"
    by (cases "clustering self signal SN") blast
  from Cons.prems pe ev cl obtain counted where
    ch: "count_hits (heap hitmap) channels_hit = Inr counted"
    by (auto split: sum.splits)
  let ?r = "\<lparr>r_signal = signal, r_SN = SN, r_CMN = CMN, r_CMsig = CMsig, r_hitmap = hitmap,
            r_channels_hit = channels_hit, r_clusters = clusters, r_numclus = n,
            r_clustersize = sizes\<rparr>"
  from Cons.prems pe ev cl ch have
    "do_analysis_loop events meanCMN meanCMsig hitmap rest
       (self1, heap(hitmap := counted), prodata @ [?r]) = Inr (self', heap', prodata')"
    by simp
  from Cons.IH [OF this] show ?case
    by auto
qed

lemma do_analysis_results:
  assumes "do_analysis self heap hitmap events timing = Inr (self', heap', prodata)"
  shows "length prodata = length (filter (\<lambda>t. ea_tmin self < t) timing)"
    and "\<forall>r\<in>set prodata. r_hitmap r = hitmap"
proof -
  let ?gtime = "filter (\<lambda>k. ea_tmin self < timing ! k) [0..<length timing]"
  from assms have l: "do_analysis_loop events
      (np_mean (ea_CMN (self\<lparr>ea_events := ea_events self + length ?gtime\<rparr>)))
      (np_mean (ea_CMsig (self\<lparr>ea_events := ea_events self + length ?gtime\<rparr>)))
      hitmap [0..<length ?gtime]
      (self\<lparr>ea_events := ea_events self + length ?gtime\<rparr>,
       heap(hitmap := replicate
          (ea_numchan (self\<lparr>ea_events := ea_events self + length ?gtime\<rparr>)) 0), [])
      = Inr (self', heap', prodata)"
    unfolding do_analysis_def Let_def .
  have g: "length ?gtime = length (filter (\<lambda>t. ea_tmin self < t) timing)"
    using length_filter_positions [of "\<lambda>t. ea_tmin self < t" timing] by simp
  from do_analysis_loop_results [OF l] g
  show "length prodata = length (filter (\<lambda>t. ea_tmin self < t) timing)"
    by simp
  from do_analysis_loop_results [OF l]
  show "\<forall>r\<in>set prodata. r_hitmap r = hitmap"
    by simp
qed


text \<open>
  Claim C1 at a batch of two events of which only the second has a timing above \<open>tmin\<close>
  (timings 0 and 5, \<open>tmin\<close> 0). One event is counted and one result is produced, but it
  is the result of the first event, the one to be skipped: its signal is 100, 0, that of
  \<^verbatim>\<open>events[0]\<close>, whereas the admitted event \<^verbatim>\<open>events[1]\<close> has the signal 0, 100 and is
  never processed. The loop index runs over \<^verbatim>\<open>range(gtime[0].shape[0])\<close> and is used as the
  event number.
\<close>

theorem do_analysis_reads_leading_events:
  "do_analysis (example_analysis 2 5 False) (\<lambda>a. []) 0
     [[Num 101, Num 1], [Num 1, Num 101]] [0, 5]
   = Inr ((example_analysis 2 5 False)\<lparr>ea_events := 1\<rparr>, (\<lambda>a. [])(0 := [1, 0]),
          [\<lparr>r_signal = [Num 100, Num 0], r_SN = [Num 100, Num 0], r_CMN = Num 1,
            r_CMsig = Num 0, r_hitmap = 0, r_channels_hit = [0], r_clusters = [[0]],
            r_numclus = 1, r_clustersize = [1]\<rparr>])
   \<and> process_event ([[Num 101, Num 1], [Num 1, Num 101]] ! 0) [Num 0, Num 0] (Num 0) (Num 1)
         [Num 1, Num 1] 2
       = Inr ([Num 100, Num 0], [Num 100, Num 0], Num 1, Num 0)
   \<and> process_event ([[Num 101, Num 1], [Num 1, Num 101]] ! 1) [Num 0, Num 0] (Num 0) (Num 1)
         [Num 1, Num 1] 2
       = Inr ([Num 0, Num 100], [Num 0, Num 100], Num 1, Num 0)
   \<and> \<not> ea_tmin (example_analysis 2 5 False) < [0, 5] ! 0
   \<and> ea_tmin (example_analysis 2 5 False) < [0, 5] ! 1"
  using do_analysis_example_skip process_event_example
  by (simp add: example_analysis_fields)

text \<open>
  Claim C4 at a batch of two events, both admitted, the first hitting channel 0 and the
  second channel 1. After the first event alone the hit map is 1, 0. After the run the
  results of both events refer to the same array, which holds 1, 1: the hit map kept for
  the first event has been changed by the second.
\<close>

theorem do_analysis_shared_hitmap:
  "map_sum id (\<lambda>(self, heap, prodata). map (\<lambda>r. heap (r_hitmap r)) prodata)
     (do_analysis (example_analysis 2 5 False) (\<lambda>a. []) 0
        [[Num 101, Num 1], [Num 1, Num 101]] [5, 5])
   = Inr [[1, 1], [1, 1]]
   \<and> map_sum id (\<lambda>(self, heap, prodata). map r_channels_hit prodata)
     (do_analysis (example_analysis 2 5 False) (\<lambda>a. []) 0
        [[Num 101, Num 1], [Num 1, Num 101]] [5, 5])
   = Inr [[0], [1]]
   \<and> map_sum id (\<lambda>(self, heap, prodata). map (\<lambda>r. heap (r_hitmap r)) prodata)
     (do_analysis (example_analysis 2 5 False) (\<lambda>a. []) 0 [[Num 101, Num 1]] [5])
   = Inr [[1, 0]]"
  unfolding do_analysis_example_two do_analysis_example_one
  by simp

end
